theory Spec2Isabelle
  imports Complex_Main
begin

section \<open>JavaScript numbers and strings\<close>

text \<open>
  A JavaScript \<open>number\<close> is modelled as an exact real or the value \<open>NaN\<close>. The rounding
  error of IEEE doubles and the two infinities are not modelled: a division by zero, which
  gives an infinity (or \<open>NaN\<close>) in JavaScript, gives \<open>NaN\<close> here. Every operation
  propagates \<open>NaN\<close> and every comparison with \<open>NaN\<close> is false, as in JavaScript.
\<close>

datatype number = NaN | Num real

instantiation number :: "{zero, one, numeral, minus, times, inverse, ord}"
begin

definition zero_number_def: "0 = Num 0"

definition one_number_def: "1 = Num 1"

definition plus_number_def:
  "x + y = (case x of NaN \<Rightarrow> NaN | Num a \<Rightarrow> (case y of NaN \<Rightarrow> NaN | Num b \<Rightarrow> Num (a + b)))"

definition minus_number_def:
  "x - y = (case x of NaN \<Rightarrow> NaN | Num a \<Rightarrow> (case y of NaN \<Rightarrow> NaN | Num b \<Rightarrow> Num (a - b)))"

definition times_number_def:
  "x * y = (case x of NaN \<Rightarrow> NaN | Num a \<Rightarrow> (case y of NaN \<Rightarrow> NaN | Num b \<Rightarrow> Num (a * b)))"

definition divide_number_def:
  "x div y = (case x of NaN \<Rightarrow> NaN | Num a \<Rightarrow>
     (case y of NaN \<Rightarrow> NaN | Num b \<Rightarrow> if b = 0 then NaN else Num (a / b)))"

definition inverse_number_def:
  "inverse x = (case x of NaN \<Rightarrow> NaN | Num a \<Rightarrow> if a = 0 then NaN else Num (inverse a))"

definition less_number_def:
  "x < y = (case x of NaN \<Rightarrow> False | Num a \<Rightarrow> (case y of NaN \<Rightarrow> False | Num b \<Rightarrow> a < b))"

definition less_eq_number_def:
  "x \<le> y = (case x of NaN \<Rightarrow> False | Num a \<Rightarrow> (case y of NaN \<Rightarrow> False | Num b \<Rightarrow> a \<le> b))"

instance
proof
  fix a b c :: number
  show "a + b + c = a + (b + c)"
    by (simp add: plus_number_def split: number.splits)
qed

end


text \<open>The operator \<open>===\<close> on numbers: \<open>NaN\<close> is not equal to itself.\<close>

definition strictEq :: "number \<Rightarrow> number \<Rightarrow> bool" where
  "strictEq x y = (case x of NaN \<Rightarrow> False | Num a \<Rightarrow> (case y of NaN \<Rightarrow> False | Num b \<Rightarrow> a = b))"

definition Math_max :: "number \<Rightarrow> number \<Rightarrow> number" where
  "Math_max x y = (case x of NaN \<Rightarrow> NaN | Num a \<Rightarrow> (case y of NaN \<Rightarrow> NaN | Num b \<Rightarrow> Num (max a b)))"

definition Math_min :: "number \<Rightarrow> number \<Rightarrow> number" where
  "Math_min x y = (case x of NaN \<Rightarrow> NaN | Num a \<Rightarrow> (case y of NaN \<Rightarrow> NaN | Num b \<Rightarrow> Num (min a b)))"

text \<open>\<open>Math.round\<close> rounds to the nearest integer, a tie towards plus infinity.\<close>

definition Math_round :: "number \<Rightarrow> number" where
  "Math_round x = (case x of NaN \<Rightarrow> NaN | Num a \<Rightarrow> Num (of_int \<lfloor>a + 1 / 2\<rfloor>))"

definition Math_floor :: "number \<Rightarrow> number" where
  "Math_floor x = (case x of NaN \<Rightarrow> NaN | Num a \<Rightarrow> Num (of_int \<lfloor>a\<rfloor>))"

text \<open>
  \<open>Math.pow\<close>; its only call has the exponent 2.4. A negative base with a fractional
  exponent gives \<open>NaN\<close>.
\<close>

definition Math_pow :: "number \<Rightarrow> number \<Rightarrow> number" where
  "Math_pow x y = (case x of NaN \<Rightarrow> NaN | Num a \<Rightarrow>
     (case y of NaN \<Rightarrow> NaN | Num b \<Rightarrow> if a < 0 then NaN else Num (a powr b)))"

text \<open>
  Strings are lists of 8-bit characters. \<open>toUpperCase\<close> is modelled on the ASCII letters;
  every string the program passes to it is ASCII.
\<close>

definition isDigit :: "char \<Rightarrow> bool" where
  "isDigit c = (48 \<le> (of_char c :: nat) \<and> (of_char c :: nat) \<le> 57)"

definition isUpperAF :: "char \<Rightarrow> bool" where
  "isUpperAF c = (65 \<le> (of_char c :: nat) \<and> (of_char c :: nat) \<le> 70)"

definition isLowerAF :: "char \<Rightarrow> bool" where
  "isLowerAF c = (97 \<le> (of_char c :: nat) \<and> (of_char c :: nat) \<le> 102)"

text \<open>The character class \<open>[0-9A-Fa-f]\<close>.\<close>

definition isHexDigit :: "char \<Rightarrow> bool" where
  "isHexDigit c = (isDigit c \<or> isUpperAF c \<or> isLowerAF c)"

definition toUpperChar :: "char \<Rightarrow> char" where
  "toUpperChar c =
     (if 97 \<le> (of_char c :: nat) \<and> (of_char c :: nat) \<le> 122
      then char_of ((of_char c :: nat) - 32) else c)"

definition toUpperCase :: "string \<Rightarrow> string" where
  "toUpperCase s = map toUpperChar s"

text \<open>\<open>s.substring(a, b)\<close> for \<open>a \<le> b\<close>; both ends are cut at the length of \<open>s\<close>.\<close>

definition substring :: "string \<Rightarrow> nat \<Rightarrow> nat \<Rightarrow> string" where
  "substring s a b = take (b - a) (drop a s)"

text \<open>\<open>s.replace(/^#/, '')\<close>: one leading \<open>#\<close> is removed.\<close>

definition stripHash :: "string \<Rightarrow> string" where
  "stripHash s = (case s of [] \<Rightarrow> [] | c # cs \<Rightarrow> if c = CHR ''#'' then cs else s)"

text \<open>\<open>s.padStart(n, '0')\<close>.\<close>

definition padStart :: "string \<Rightarrow> nat \<Rightarrow> string" where
  "padStart s n = replicate (n - length s) CHR ''0'' @ s"

subsection \<open>parseInt with radix 16\<close>

definition hexDigitVal :: "char \<Rightarrow> nat" where
  "hexDigitVal c =
     (if isDigit c then (of_char c :: nat) - 48
      else if isUpperAF c then (of_char c :: nat) - 55
      else (of_char c :: nat) - 87)"

text \<open>The white space that \<open>parseInt\<close> skips: TAB, LF, VT, FF, CR, space and NBSP.\<close>

definition isWhiteSpace :: "char \<Rightarrow> bool" where
  "isWhiteSpace c = ((of_char c :: nat) \<in> {9, 10, 11, 12, 13, 32, 160})"

definition stripSign :: "string \<Rightarrow> string" where
  "stripSign s = (case s of [] \<Rightarrow> [] | c # cs \<Rightarrow> if c = CHR ''+'' \<or> c = CHR ''-'' then cs else s)"

definition strip0x :: "string \<Rightarrow> string" where
  "strip0x s = (case s of
       c # d # cs \<Rightarrow> if c = CHR ''0'' \<and> (d = CHR ''x'' \<or> d = CHR ''X'') then cs else s
     | _ \<Rightarrow> s)"

definition hexValue :: "string \<Rightarrow> nat" where
  "hexValue ds = foldl (\<lambda>acc c. 16 * acc + hexDigitVal c) 0 ds"

text \<open>
  \<open>parseInt(s, 16)\<close>: leading white space is skipped, then a sign, then \<open>0x\<close> or \<open>0X\<close>;
  the longest run of hexadecimal digits is the value, and \<open>NaN\<close> when that run is empty.
\<close>

definition parseInt16 :: "string \<Rightarrow> number" where
  "parseInt16 s =
     (let t = dropWhile isWhiteSpace s;
          neg = (t \<noteq> [] \<and> hd t = CHR ''-'');
          ds = takeWhile isHexDigit (strip0x (stripSign t))
      in if ds = [] then NaN
         else if neg then Num (- real (hexValue ds)) else Num (real (hexValue ds)))"

subsection \<open>Number.prototype.toString(16)\<close>

definition hexDigitChar :: "nat \<Rightarrow> char" where
  "hexDigitChar d = (if d < 10 then char_of (48 + d) else char_of (87 + d))"

fun natToString16 :: "nat \<Rightarrow> string" where
  "natToString16 n =
     (if n < 16 then [hexDigitChar n] else natToString16 (n div 16) @ [hexDigitChar (n mod 16)])"

declare natToString16.simps [simp del]

text \<open>
  \<open>toString(16)\<close> is only called on the result of rounding and it is modelled on the
  integers and \<open>NaN\<close>.
\<close>

definition toString16 :: "number \<Rightarrow> string" where
  "toString16 x = (case x of NaN \<Rightarrow> ''NaN''
     | Num a \<Rightarrow> if a < 0 then CHR ''-'' # natToString16 (nat \<lfloor>- a\<rfloor>) else natToString16 (nat \<lfloor>a\<rfloor>))"

section \<open>types.ts\<close>

record RGB =
  r :: number
  g :: number
  b :: number

record HSL =
  h :: number
  s :: number
  l :: number

record Color =
  hex :: string
  rgb :: RGB
  hsl :: HSL
  locked :: bool

datatype HarmonyRule = analogous | complementary | triadic | tetradic | monochromatic

record Palette =
  colors :: "Color list"
  harmonyRule :: "HarmonyRule option"

section \<open>colorConversions.ts\<close>

definition clamp :: "number \<Rightarrow> number \<Rightarrow> number \<Rightarrow> number" where
  "clamp v lo hi = Math_min (Math_max v lo) hi"

definition hexToRgb :: "string \<Rightarrow> RGB" where
  "hexToRgb hx =
     (let cleanHex = stripHash hx;
          pr = parseInt16 (substring cleanHex 0 2);
          pg = parseInt16 (substring cleanHex 2 4);
          pb = parseInt16 (substring cleanHex 4 6)
      in \<lparr> r = clamp pr 0 255, g = clamp pg 0 255, b = clamp pb 0 255 \<rparr>)"

definition toHex :: "number \<Rightarrow> string" where
  "toHex n = toUpperCase (padStart (toString16 n) 2)"

definition rgbToHex :: "RGB \<Rightarrow> string" where
  "rgbToHex c =
     (let cr = clamp (Math_round (r c)) 0 255;
          cg = clamp (Math_round (g c)) 0 255;
          cb = clamp (Math_round (b c)) 0 255
      in CHR ''#'' # toHex cr @ toHex cg @ toHex cb)"

definition rgbToHsl :: "RGB \<Rightarrow> HSL" where
  "rgbToHsl c =
     (let rr = clamp (r c) 0 255 / 255;
          gg = clamp (g c) 0 255 / 255;
          bb = clamp (b c) 0 255 / 255;
          mx = Math_max (Math_max rr gg) bb;
          mn = Math_min (Math_min rr gg) bb;
          delta = mx - mn;
          ll = (mx + mn) / 2;
          ss = (if \<not> strictEq delta 0
                then (if Num 0.5 < ll then delta / (2 - mx - mn) else delta / (mx + mn))
                else 0);
          hh = (if \<not> strictEq delta 0
                then (if strictEq mx rr then ((gg - bb) / delta + (if gg < bb then 6 else 0)) / 6
                      else if strictEq mx gg then ((bb - rr) / delta + 2) / 6
                      else if strictEq mx bb then ((rr - gg) / delta + 4) / 6
                      else 0)
                else 0)
      in \<lparr> h = clamp (Math_round (hh * 360)) 0 360,
           s = clamp (Math_round (ss * 100)) 0 100,
           l = clamp (Math_round (ll * 100)) 0 100 \<rparr>)"

definition hue2rgb :: "number \<Rightarrow> number \<Rightarrow> number \<Rightarrow> number" where
  "hue2rgb p q t =
     (let t1 = (if t < 0 then t + 1 else t);
          t2 = (if 1 < t1 then t1 - 1 else t1)
      in if t2 < 1 / 6 then p + (q - p) * 6 * t2
         else if t2 < 1 / 2 then q
         else if t2 < 2 / 3 then p + (q - p) * (2 / 3 - t2) * 6
         else p)"

definition hslToRgb :: "HSL \<Rightarrow> RGB" where
  "hslToRgb c =
     (let hh = clamp (h c) 0 360 / 360;
          ss = clamp (s c) 0 100 / 100;
          ll = clamp (l c) 0 100 / 100;
          (rr, gg, bb) =
            (if strictEq ss 0 then (ll, ll, ll)
             else let q = (if ll < Num 0.5 then ll * (1 + ss) else ll + ss - ll * ss);
                      p = 2 * ll - q
                  in (hue2rgb p q (hh + 1 / 3), hue2rgb p q hh, hue2rgb p q (hh - 1 / 3)))
      in \<lparr> r = clamp (Math_round (rr * 255)) 0 255,
           g = clamp (Math_round (gg * 255)) 0 255,
           b = clamp (Math_round (bb * 255)) 0 255 \<rparr>)"

definition hexToHsl :: "string \<Rightarrow> HSL" where
  "hexToHsl hx = rgbToHsl (hexToRgb hx)"

definition hslToHex :: "HSL \<Rightarrow> string" where
  "hslToHex c = rgbToHex (hslToRgb c)"

section \<open>contrastCalculations.ts\<close>

text \<open>The gamma correction, which the source writes out once for each channel.\<close>

definition gammaCorrect :: "number \<Rightarrow> number" where
  "gammaCorrect v =
     (if v \<le> Num 0.03928 then v / Num 12.92
      else Math_pow ((v + Num 0.055) / Num 1.055) (Num 2.4))"

definition getRelativeLuminance :: "RGB \<Rightarrow> number" where
  "getRelativeLuminance c =
     (let rsRGB = r c / 255;
          gsRGB = g c / 255;
          bsRGB = b c / 255;
          rl = gammaCorrect rsRGB;
          gl = gammaCorrect gsRGB;
          bl = gammaCorrect bsRGB
      in Num 0.2126 * rl + Num 0.7152 * gl + Num 0.0722 * bl)"

definition calculateContrastRatio :: "RGB \<Rightarrow> RGB \<Rightarrow> number" where
  "calculateContrastRatio rgb1 rgb2 =
     (let lum1 = getRelativeLuminance rgb1;
          lum2 = getRelativeLuminance rgb2;
          lighter = Math_max lum1 lum2;
          darker = Math_min lum1 lum2
      in (lighter + Num 0.05) / (darker + Num 0.05))"

section \<open>harmonyRules.ts\<close>

text \<open>
  The remainder operator \<open>%\<close>: the quotient is truncated towards zero, so the result has
  the sign of the dividend; a zero divisor gives \<open>NaN\<close>.
\<close>

definition truncate :: "real \<Rightarrow> int" where
  "truncate x = (if x < 0 then \<lceil>x\<rceil> else \<lfloor>x\<rfloor>)"

definition remainder :: "number \<Rightarrow> number \<Rightarrow> number" where
  "remainder x y = (case x of NaN \<Rightarrow> NaN | Num a \<Rightarrow>
     (case y of NaN \<Rightarrow> NaN | Num d \<Rightarrow>
        if d = 0 then NaN else Num (a - d * of_int (truncate (a / d)))))"

definition normalizeHue :: "number \<Rightarrow> number" where
  "normalizeHue hue = remainder (remainder hue 360 + 360) 360"

definition createColorFromHsl :: "HSL \<Rightarrow> bool \<Rightarrow> Color" where
  "createColorFromHsl c lk =
     (let hx = hslToHex c;
          rgbv = hexToRgb hx
      in \<lparr> hex = hx, rgb = rgbv, hsl = c, locked = lk \<rparr>)"

definition generateAnalogousPalette :: "Color \<Rightarrow> Color list" where
  "generateAnalogousPalette baseColor =
     (let baseHsl = hsl baseColor;
          hueOffsets = [Num (- 30), Num (- 15), 0, 15, 30]
      in map (\<lambda>offset.
            let newHue = normalizeHue (h baseHsl + offset)
            in createColorFromHsl \<lparr> h = newHue, s = s baseHsl, l = l baseHsl \<rparr> False)
          hueOffsets)"

definition generateComplementaryPalette :: "Color \<Rightarrow> Color list" where
  "generateComplementaryPalette baseColor =
     (let baseHsl = hsl baseColor;
          complementaryHue = normalizeHue (h baseHsl + 180)
      in [createColorFromHsl \<lparr> h = h baseHsl, s = s baseHsl, l = Math_max 20 (l baseHsl - 20) \<rparr> False,
          createColorFromHsl \<lparr> h = h baseHsl, s = s baseHsl, l = l baseHsl \<rparr> False,
          createColorFromHsl \<lparr> h = h baseHsl, s = s baseHsl, l = Math_min 80 (l baseHsl + 20) \<rparr> False,
          createColorFromHsl \<lparr> h = complementaryHue, s = s baseHsl, l = l baseHsl \<rparr> False,
          createColorFromHsl \<lparr> h = complementaryHue, s = s baseHsl, l = Math_min 80 (l baseHsl + 15) \<rparr> False])"

definition generateTriadicPalette :: "Color \<Rightarrow> Color list" where
  "generateTriadicPalette baseColor =
     (let baseHsl = hsl baseColor;
          hue2 = normalizeHue (h baseHsl + 120);
          hue3 = normalizeHue (h baseHsl + 240)
      in [createColorFromHsl \<lparr> h = h baseHsl, s = s baseHsl, l = l baseHsl \<rparr> False,
          createColorFromHsl \<lparr> h = h baseHsl, s = s baseHsl, l = Math_min 80 (l baseHsl + 15) \<rparr> False,
          createColorFromHsl \<lparr> h = hue2, s = s baseHsl, l = l baseHsl \<rparr> False,
          createColorFromHsl \<lparr> h = hue3, s = s baseHsl, l = l baseHsl \<rparr> False,
          createColorFromHsl \<lparr> h = hue2, s = s baseHsl, l = Math_max 20 (l baseHsl - 15) \<rparr> False])"

definition generateTetradicPalette :: "Color \<Rightarrow> Color list" where
  "generateTetradicPalette baseColor =
     (let baseHsl = hsl baseColor;
          hue2 = normalizeHue (h baseHsl + 90);
          hue3 = normalizeHue (h baseHsl + 180);
          hue4 = normalizeHue (h baseHsl + 270)
      in [createColorFromHsl \<lparr> h = h baseHsl, s = s baseHsl, l = l baseHsl \<rparr> False,
          createColorFromHsl \<lparr> h = hue2, s = s baseHsl, l = l baseHsl \<rparr> False,
          createColorFromHsl \<lparr> h = hue3, s = s baseHsl, l = l baseHsl \<rparr> False,
          createColorFromHsl \<lparr> h = hue4, s = s baseHsl, l = l baseHsl \<rparr> False,
          createColorFromHsl \<lparr> h = h baseHsl, s = s baseHsl, l = Math_min 80 (l baseHsl + 15) \<rparr> False])"

definition generateMonochromaticPalette :: "Color \<Rightarrow> Color list" where
  "generateMonochromaticPalette baseColor =
     (let baseHsl = hsl baseColor
      in [createColorFromHsl \<lparr> h = h baseHsl, s = Math_max 10 (s baseHsl - 20), l = Math_max 20 (l baseHsl - 20) \<rparr> False,
          createColorFromHsl \<lparr> h = h baseHsl, s = s baseHsl, l = Math_max 30 (l baseHsl - 10) \<rparr> False,
          createColorFromHsl \<lparr> h = h baseHsl, s = s baseHsl, l = l baseHsl \<rparr> False,
          createColorFromHsl \<lparr> h = h baseHsl, s = s baseHsl, l = Math_min 70 (l baseHsl + 10) \<rparr> False,
          createColorFromHsl \<lparr> h = h baseHsl, s = Math_min 90 (s baseHsl + 20), l = Math_min 80 (l baseHsl + 20) \<rparr> False])"

section \<open>paletteGenerator.ts\<close>

text \<open>
  \<open>Math.random()\<close> returns a number that is at least 0 and less than 1. The source of
  randomness is an explicit stream of such numbers; each call takes the head of the stream
  and returns the rest.
\<close>

typedef unitInterval = "{x :: real. 0 \<le> x \<and> x < 1}"
  by (rule exI [of _ 0]) simp

setup_lifting type_definition_unitInterval

type_synonym rng = "nat \<Rightarrow> unitInterval"

definition Math_random :: "rng \<Rightarrow> real \<times> rng" where
  "Math_random gen = (Rep_unitInterval (gen 0), \<lambda>n. gen (Suc n))"

definition randomHex :: "rng \<Rightarrow> string \<times> rng" where
  "randomHex gen =
     (case Math_random gen of (x, gen') \<Rightarrow>
        (padStart (toString16 (Math_floor (Num x * 256))) 2, gen'))"

definition generateRandomColor :: "rng \<Rightarrow> Color \<times> rng" where
  "generateRandomColor gen =
     (case randomHex gen of (h1, gen1) \<Rightarrow>
      case randomHex gen1 of (h2, gen2) \<Rightarrow>
      case randomHex gen2 of (h3, gen3) \<Rightarrow>
        (let hx = toUpperCase (CHR ''#'' # h1 @ h2 @ h3);
             rgbv = hexToRgb hx;
             hslv = rgbToHsl rgbv
         in (\<lparr> hex = hx, rgb = rgbv, hsl = hslv, locked = False \<rparr>, gen3)))"

definition rules :: "HarmonyRule list" where
  "rules = [analogous, complementary, triadic, tetradic, monochromatic]"

definition selectRandomHarmonyRule :: "rng \<Rightarrow> HarmonyRule \<times> rng" where
  "selectRandomHarmonyRule gen =
     (case Math_random gen of (x, gen') \<Rightarrow>
        (rules ! nat \<lfloor>x * real (length rules)\<rfloor>, gen'))"

fun generatePaletteByRule :: "Color \<Rightarrow> HarmonyRule \<Rightarrow> Color list" where
  "generatePaletteByRule baseColor analogous = generateAnalogousPalette baseColor"
| "generatePaletteByRule baseColor complementary = generateComplementaryPalette baseColor"
| "generatePaletteByRule baseColor triadic = generateTriadicPalette baseColor"
| "generatePaletteByRule baseColor tetradic = generateTetradicPalette baseColor"
| "generatePaletteByRule baseColor monochromatic = generateMonochromaticPalette baseColor"

text \<open>
  The inner \<open>while\<close> loop of \<open>generateRandomPalette\<close>: it walks the generated colors from
  \<open>generatedIndex\<close> and pushes the first one whose hex is the hex of no locked color.
  It returns the new \<open>finalColors\<close> and the new \<open>generatedIndex\<close>.
\<close>

function useGenerated :: "Color list \<Rightarrow> Color list \<Rightarrow> Color list \<Rightarrow> nat \<Rightarrow> Color list \<times> nat" where
  "useGenerated lockedColors generatedColors finalColors generatedIndex =
     (if generatedIndex < length generatedColors
      then (if \<not> list_ex (\<lambda>lc. hex lc = hex (generatedColors ! generatedIndex)) lockedColors
            then (finalColors @ [(generatedColors ! generatedIndex)\<lparr> locked := False \<rparr>],
                  generatedIndex + 1)
            else useGenerated lockedColors generatedColors finalColors (generatedIndex + 1))
      else (finalColors, generatedIndex))"
  by pat_completeness auto
termination
  by (relation "measure (\<lambda>(lcs, gcs, fcs, gi). length gcs - gi)") auto

declare useGenerated.simps [simp del]

text \<open>
  The \<open>for\<close> loop over the positions \<open>i = 0, \<dots>, 4\<close>. A position past the end of the
  current colors reads \<open>undefined\<close>, which is not a locked color.
\<close>

function mergeLoop ::
  "Color list \<Rightarrow> Color list \<Rightarrow> Color list \<Rightarrow> nat \<Rightarrow> Color list \<Rightarrow> nat \<Rightarrow> rng
    \<Rightarrow> Color list \<times> rng" where
  "mergeLoop currentColors lockedColors generatedColors i finalColors generatedIndex gen =
     (if i < 5
      then (if i < length currentColors \<and> locked (currentColors ! i)
            then mergeLoop currentColors lockedColors generatedColors (i + 1)
                   (finalColors @ [currentColors ! i]) generatedIndex gen
            else (case useGenerated lockedColors generatedColors finalColors generatedIndex of
                    (finalColors1, generatedIndex1) \<Rightarrow>
                      if length finalColors1 = i
                      then (case generateRandomColor gen of (c, gen1) \<Rightarrow>
                              mergeLoop currentColors lockedColors generatedColors (i + 1)
                                (finalColors1 @ [c]) generatedIndex1 gen1)
                      else mergeLoop currentColors lockedColors generatedColors (i + 1)
                             finalColors1 generatedIndex1 gen))
      else (finalColors, gen))"
  by pat_completeness auto
termination
  by (relation "measure (\<lambda>(ccs, lcs, gcs, i, fcs, gi, gen). 5 - i)") auto

declare mergeLoop.simps [simp del]

text \<open>The last \<open>while\<close> loop: random colors are pushed until there are five.\<close>

function fillLoop :: "Color list \<Rightarrow> rng \<Rightarrow> Color list \<times> rng" where
  "fillLoop finalColors gen =
     (if length finalColors < 5
      then (case generateRandomColor gen of (c, gen1) \<Rightarrow> fillLoop (finalColors @ [c]) gen1)
      else (finalColors, gen))"
  by pat_completeness auto
termination
  by (relation "measure (\<lambda>(fcs, gen). 5 - length fcs)") auto

declare fillLoop.simps [simp del]

definition generateRandomPalette :: "Palette option \<Rightarrow> rng \<Rightarrow> Palette \<times> rng" where
  "generateRandomPalette currentPalette gen =
     (case selectRandomHarmonyRule gen of (rule, gen1) \<Rightarrow>
        (case currentPalette of
           None \<Rightarrow>
             (case generateRandomColor gen1 of (baseColor, gen2) \<Rightarrow>
                (\<lparr> colors = generatePaletteByRule baseColor rule, harmonyRule = Some rule \<rparr>, gen2))
         | Some cur \<Rightarrow>
             if length (colors cur) = 0
             then (case generateRandomColor gen1 of (baseColor, gen2) \<Rightarrow>
                     (\<lparr> colors = generatePaletteByRule baseColor rule, harmonyRule = Some rule \<rparr>, gen2))
             else
               (let lockedColors = filter locked (colors cur)
                in if length lockedColors = 0
                   then (case generateRandomColor gen1 of (baseColor, gen2) \<Rightarrow>
                           (\<lparr> colors = generatePaletteByRule baseColor rule,
                              harmonyRule = Some rule \<rparr>, gen2))
                   else if 5 \<le> length lockedColors
                   then (cur\<lparr> harmonyRule := Some rule \<rparr>, gen1)
                   else
                     (let baseColor = lockedColors ! 0;
                          generatedColors = generatePaletteByRule baseColor rule
                      in case mergeLoop (colors cur) lockedColors generatedColors 0 [] 0 gen1 of
                           (finalColors, gen2) \<Rightarrow>
                             (case fillLoop finalColors gen2 of (finalColors', gen3) \<Rightarrow>
                                (\<lparr> colors = take 5 finalColors', harmonyRule = Some rule \<rparr>,
                                 gen3))))))"

section \<open>urlState.ts\<close>

subsection \<open>URLSearchParams\<close>

text \<open>
  The parameters are a list of pairs of a name and a value. Strings are sequences of bytes:
  the parser's last step, decoding UTF-8, is the identity on ASCII and is left out, so a
  name or value with a byte above 127 keeps its bytes here. No such string is a name that
  the program looks up, a sequence of hexadecimal digits, a sequence of \<open>0\<close> and \<open>1\<close>, or
  the name of a harmony rule.
\<close>

type_synonym params = "(string \<times> string) list"

definition isAlnum :: "char \<Rightarrow> bool" where
  "isAlnum c =
     (let n = (of_char c :: nat)
      in (48 \<le> n \<and> n \<le> 57) \<or> (65 \<le> n \<and> n \<le> 90) \<or> (97 \<le> n \<and> n \<le> 122))"

text \<open>The bytes that the serializer leaves as they are: alphanumerics and \<open>* - . _\<close>.\<close>

definition isFormSafe :: "char \<Rightarrow> bool" where
  "isFormSafe c =
     (isAlnum c \<or> c = CHR ''*'' \<or> c = CHR ''-'' \<or> c = CHR ''.'' \<or> c = CHR ''_'')"

definition upperHexDigitChar :: "nat \<Rightarrow> char" where
  "upperHexDigitChar d = (if d < 10 then char_of (48 + d) else char_of (55 + d))"

definition serializeByte :: "char \<Rightarrow> string" where
  "serializeByte c =
     (if c = CHR '' '' then ''+''
      else if isFormSafe c then [c]
      else [CHR ''%'', upperHexDigitChar ((of_char c :: nat) div 16),
            upperHexDigitChar ((of_char c :: nat) mod 16)])"

definition serializeBytes :: "string \<Rightarrow> string" where
  "serializeBytes str = concat (map serializeByte str)"

fun join :: "string \<Rightarrow> string list \<Rightarrow> string" where
  "join sep [] = []"
| "join sep [x] = x"
| "join sep (x # y # ys) = x @ sep @ join sep (y # ys)"

definition URLSearchParams_toString :: "params \<Rightarrow> string" where
  "URLSearchParams_toString ps =
     join ''&'' (map (\<lambda>(n, v). serializeBytes n @ ''='' @ serializeBytes v) ps)"

fun setExisting :: "params \<Rightarrow> string \<Rightarrow> string \<Rightarrow> params" where
  "setExisting [] n v = []"
| "setExisting ((k, w) # ps) n v =
     (if k = n then (n, v) # filter (\<lambda>q. fst q \<noteq> n) ps else (k, w) # setExisting ps n v)"

text \<open>
  \<open>set\<close>: the first pair of that name takes the value and the others of that name are
  removed; a new name is appended.
\<close>

definition URLSearchParams_set :: "params \<Rightarrow> string \<Rightarrow> string \<Rightarrow> params" where
  "URLSearchParams_set ps n v =
     (if list_ex (\<lambda>q. fst q = n) ps then setExisting ps n v else ps @ [(n, v)])"

text \<open>\<open>str.split(sep)\<close> for a separator of one character; the empty string gives \<open>[""]\<close>.\<close>

fun splitOn :: "char \<Rightarrow> string \<Rightarrow> string list" where
  "splitOn sep [] = [[]]"
| "splitOn sep (c # cs) =
     (if c = sep then [] # splitOn sep cs
      else (case splitOn sep cs of [] \<Rightarrow> [[c]] | x # xs \<Rightarrow> (c # x) # xs))"

fun percentDecode :: "string \<Rightarrow> string" where
  "percentDecode (c # d # e # cs) =
     (if c = CHR ''%'' \<and> isHexDigit d \<and> isHexDigit e
      then char_of (16 * hexDigitVal d + hexDigitVal e) # percentDecode cs
      else c # percentDecode (d # e # cs))"
| "percentDecode cs = cs"

definition plusToSpace :: "string \<Rightarrow> string" where
  "plusToSpace str = map (\<lambda>c. if c = CHR ''+'' then CHR '' '' else c) str"

text \<open>One sequence between two \<open>&\<close>: the name ends at the first \<open>=\<close>, when there is one.\<close>

definition parsePair :: "string \<Rightarrow> string \<times> string" where
  "parsePair sq =
     (let nm = takeWhile (\<lambda>c. c \<noteq> CHR ''='') sq;
          vl = (if CHR ''='' \<in> set sq then tl (dropWhile (\<lambda>c. c \<noteq> CHR ''='') sq) else [])
      in (percentDecode (plusToSpace nm), percentDecode (plusToSpace vl)))"

text \<open>\<open>new URLSearchParams(init)\<close> for a string: one leading \<open>?\<close> is removed.\<close>

definition URLSearchParams_new :: "string \<Rightarrow> params" where
  "URLSearchParams_new init =
     (let str = (case init of [] \<Rightarrow> [] | c # cs \<Rightarrow> if c = CHR ''?'' then cs else init)
      in map parsePair (filter (\<lambda>sq. sq \<noteq> []) (splitOn CHR ''&'' str)))"

text \<open>\<open>get\<close>: the value of the first pair of that name, \<open>null\<close> when there is none.\<close>

definition URLSearchParams_get :: "params \<Rightarrow> string \<Rightarrow> string option" where
  "URLSearchParams_get ps n = map_of ps n"

subsection \<open>Encoding and decoding a palette\<close>

fun ruleName :: "HarmonyRule \<Rightarrow> string" where
  "ruleName analogous = ''analogous''"
| "ruleName complementary = ''complementary''"
| "ruleName triadic = ''triadic''"
| "ruleName tetradic = ''tetradic''"
| "ruleName monochromatic = ''monochromatic''"

definition validRules :: "HarmonyRule list" where
  "validRules = [analogous, complementary, triadic, tetradic, monochromatic]"

text \<open>\<open>str.replace('#', '')\<close>: the first \<open>#\<close> of the string is removed, wherever it is.\<close>

fun removeFirstHash :: "string \<Rightarrow> string" where
  "removeFirstHash [] = []"
| "removeFirstHash (c # cs) = (if c = CHR ''#'' then cs else c # removeFirstHash cs)"

definition encodePaletteToUrl :: "Palette \<Rightarrow> string" where
  "encodePaletteToUrl palette =
     (let params0 = [];
          colorHexes = map (\<lambda>color. removeFirstHash (hex color)) (colors palette);
          params1 = URLSearchParams_set params0 ''colors'' (join '','' colorHexes);
          locks = concat (map (\<lambda>color. if locked color then ''1'' else ''0'') (colors palette));
          params2 = URLSearchParams_set params1 ''locks'' locks;
          params3 = (case harmonyRule palette of
                       Some rule \<Rightarrow> URLSearchParams_set params2 ''harmony'' (ruleName rule)
                     | None \<Rightarrow> params2)
      in URLSearchParams_toString params3)"

text \<open>The test \<open>/^[0-9A-Fa-f]{6}$/\<close>.\<close>

definition isHex6 :: "string \<Rightarrow> bool" where
  "isHex6 str = (length str = 6 \<and> list_all isHexDigit str)"

text \<open>The test \<open>/^[01]{5}$/\<close>.\<close>

definition isLocks5 :: "string \<Rightarrow> bool" where
  "isLocks5 str = (length str = 5 \<and> list_all (\<lambda>c. c = CHR ''0'' \<or> c = CHR ''1'') str)"

text \<open>
  The loop over the color tokens; \<open>None\<close> is the \<open>return null\<close> at the first token that
  fails the test.
\<close>

fun decodeColors :: "string list \<Rightarrow> Color list option" where
  "decodeColors [] = Some []"
| "decodeColors (hx # rest) =
     (if \<not> isHex6 hx then None
      else (let fullHex = CHR ''#'' # toUpperCase hx;
                rgbv = hexToRgb fullHex;
                hslv = rgbToHsl rgbv
            in case decodeColors rest of
                 None \<Rightarrow> None
               | Some cs \<Rightarrow> Some (\<lparr> hex = fullHex, rgb = rgbv, hsl = hslv, locked = False \<rparr> # cs)))"

text \<open>The loop \<open>colors[i].locked = locksParam[i] === '1'\<close> for \<open>i = 0, \<dots>, 4\<close>.\<close>

definition applyLocks :: "Color list \<Rightarrow> string \<Rightarrow> Color list" where
  "applyLocks cs locksParam =
     foldl (\<lambda>acc i. acc[i := (acc ! i)\<lparr> locked := (locksParam ! i = CHR ''1'') \<rparr>]) cs [0..<5]"

text \<open>
  Nothing in the body of the \<open>try\<close> raises, so the \<open>catch\<close> branch is never taken: the
  string and list operations are total, and the lock loop runs on five colors and five
  characters.
\<close>

definition decodePaletteFromUrl :: "string \<Rightarrow> Palette option" where
  "decodePaletteFromUrl urlHash =
     (let cleanHash = stripHash urlHash
      in if cleanHash = [] then None
         else
           (let params = URLSearchParams_new cleanHash
            in case URLSearchParams_get params ''colors'' of
                 None \<Rightarrow> None
               | Some colorsParam \<Rightarrow>
                   if colorsParam = [] then None
                   else
                     (let hexColors = splitOn CHR '','' colorsParam
                      in if length hexColors \<noteq> 5 then None
                         else
                           (case decodeColors hexColors of
                              None \<Rightarrow> None
                            | Some cs \<Rightarrow>
                                (let cs' =
                                       (case URLSearchParams_get params ''locks'' of
                                          None \<Rightarrow> cs
                                        | Some locksParam \<Rightarrow>
                                            if locksParam = [] then cs
                                            else if \<not> isLocks5 locksParam then cs
                                            else applyLocks cs locksParam);
                                     rule =
                                       (case URLSearchParams_get params ''harmony'' of
                                          None \<Rightarrow> None
                                        | Some harmonyParam \<Rightarrow>
                                            if harmonyParam = [] then None
                                            else find (\<lambda>rl. ruleName rl = harmonyParam) validRules)
                                 in Some \<lparr> colors = cs', harmonyRule = rule \<rparr>)))))"

section \<open>Vocabulary of the properties\<close>

text \<open>
  A valid 6-digit hex input of \<open>hexToRgb\<close>: six hexadecimal digits, with or without a
  leading \<open>#\<close>.
\<close>

definition validHexInput :: "string \<Rightarrow> bool" where
  "validHexInput str = isHex6 (stripHash str)"

text \<open>The hex field of the data model: \<open>#\<close> and six upper-case hexadecimal digits.\<close>

definition isCanonicalHex :: "string \<Rightarrow> bool" where
  "isCanonicalHex str = (case str of [] \<Rightarrow> False
     | c # ds \<Rightarrow> c = CHR ''#'' \<and> length ds = 6 \<and> list_all (\<lambda>d. isDigit d \<or> isUpperAF d) ds)"

definition channels :: "RGB \<Rightarrow> number list" where
  "channels c = [r c, g c, b c]"

text \<open>A number in the interval from 0 to 255.\<close>

definition isByte :: "number \<Rightarrow> bool" where
  "isByte x = (0 \<le> x \<and> x \<le> 255)"

text \<open>An integer in the interval from \<open>lo\<close> to \<open>hi\<close>.\<close>

definition isIntIn :: "int \<Rightarrow> int \<Rightarrow> number \<Rightarrow> bool" where
  "isIntIn lo hi x = (case x of NaN \<Rightarrow> False
     | Num a \<Rightarrow> a = of_int \<lfloor>a\<rfloor> \<and> of_int lo \<le> a \<and> a \<le> of_int hi)"






definition black :: RGB where
  "black = \<lparr>r = 0, g = 0, b = 0\<rparr>"

definition white :: RGB where
  "white = \<lparr>r = 255, g = 255, b = 255\<rparr>"

text \<open>
  The value that the decoder reads for a name: the input without one leading \<open>#\<close>,
  parsed as URL parameters.
\<close>

definition paramOf :: "string \<Rightarrow> string \<Rightarrow> string option" where
  "paramOf urlHash name = URLSearchParams_get (URLSearchParams_new (stripHash urlHash)) name"

text \<open>
  The four reasons for \<open>null\<close>: the input is empty after the \<open>#\<close> is removed, there
  is no \<open>colors\<close> parameter, the list of color tokens has not 5 elements, or one token
  is not 6 hexadecimal digits.
\<close>

definition decodeFails :: "string \<Rightarrow> bool" where
  "decodeFails urlHash =
     (stripHash urlHash = [] \<or>
      (case paramOf urlHash ''colors'' of
         None \<Rightarrow> True
       | Some colorsParam \<Rightarrow>
           length (splitOn CHR '','' colorsParam) \<noteq> 5
           \<or> \<not> list_all isHex6 (splitOn CHR '','' colorsParam)))"

definition locksWellFormed :: "string \<Rightarrow> bool" where
  "locksWellFormed urlHash =
     (case paramOf urlHash ''locks'' of None \<Rightarrow> False | Some locksParam \<Rightarrow> isLocks5 locksParam)"

definition harmonyKnown :: "string \<Rightarrow> bool" where
  "harmonyKnown urlHash =
     (case paramOf urlHash ''harmony'' of None \<Rightarrow> False
      | Some harmonyParam \<Rightarrow> harmonyParam \<in> set (map ruleName validRules))"

text \<open>The color that the decoder builds from one token, before the locks are applied.\<close>

definition colorOfToken :: "string \<Rightarrow> Color" where
  "colorOfToken hx = \<lparr> hex = CHR ''#'' # toUpperCase hx, rgb = hexToRgb (CHR ''#'' # toUpperCase hx),
     hsl = rgbToHsl (hexToRgb (CHR ''#'' # toUpperCase hx)), locked = False \<rparr>"

text \<open>Two inputs of the decoder.\<close>

definition softUrl :: string where
  "softUrl = ''colors=FF0000,00FF00,0000FF,FFFF00,FF00FF&locks=111&harmony=invalid''"

definition lowerUrl :: string where
  "lowerUrl = ''#colors=ff0000,00ff00,0000ff,ffff00,ff00ff&locks=10101&harmony=triadic''"


text \<open>The characters that the serializer of URL parameters can write for a name or a value.\<close>

definition isUrlChar :: "char \<Rightarrow> bool" where
  "isUrlChar c = (isFormSafe c \<or> c = CHR ''+'' \<or> c = CHR ''%'')"

text \<open>One pair as the serializer writes it.\<close>

definition serializePair :: "string \<times> string \<Rightarrow> string" where
  "serializePair = (\<lambda>(n, v). serializeBytes n @ ''='' @ serializeBytes v)"

text \<open>A color with its \<open>rgb\<close> and \<open>hsl\<close> computed again from its hex.\<close>

definition recomputed :: "Color \<Rightarrow> Color" where
  "recomputed c = \<lparr> hex = hex c, rgb = hexToRgb (hex c), hsl = rgbToHsl (hexToRgb (hex c)),
     locked = locked c \<rparr>"

text \<open>A palette of five colors in the form of the data model.\<close>

definition testPalette :: Palette where
  "testPalette = \<lparr> colors =
     [\<lparr> hex = ''#FF0000'', rgb = \<lparr>r = 255, g = 0, b = 0\<rparr>, hsl = \<lparr>h = 0, s = 100, l = 50\<rparr>, locked = True \<rparr>,
      \<lparr> hex = ''#00FF00'', rgb = \<lparr>r = 0, g = 255, b = 0\<rparr>, hsl = \<lparr>h = 120, s = 100, l = 50\<rparr>, locked = False \<rparr>,
      \<lparr> hex = ''#0000FF'', rgb = \<lparr>r = 0, g = 0, b = 255\<rparr>, hsl = \<lparr>h = 240, s = 100, l = 50\<rparr>, locked = True \<rparr>,
      \<lparr> hex = ''#FFFF00'', rgb = \<lparr>r = 255, g = 255, b = 0\<rparr>, hsl = \<lparr>h = 60, s = 100, l = 50\<rparr>, locked = False \<rparr>,
      \<lparr> hex = ''#FF00FF'', rgb = \<lparr>r = 255, g = 0, b = 255\<rparr>, hsl = \<lparr>h = 300, s = 100, l = 50\<rparr>, locked = True \<rparr>],
     harmonyRule = Some complementary \<rparr>"

text \<open>
  Every color that is locked in \<open>cur\<close> is at the same index of \<open>out\<close>, unchanged: the
  same color, so the same hex, and locked.
\<close>

definition lockedKept :: "Color list \<Rightarrow> Color list \<Rightarrow> bool" where
  "lockedKept cur out = (\<forall>i < 5. locked (cur ! i) \<longrightarrow>
     out ! i = cur ! i \<and> hex (out ! i) = hex (cur ! i) \<and> locked (out ! i))"

text \<open>The source of randomness whose every number is 0.\<close>

lift_definition zeroDraw :: unitInterval is "0 :: real"
  by simp

definition zeroGen :: rng where
  "zeroGen = (\<lambda>n. zeroDraw)"

section \<open>Arithmetic of numbers\<close>

lemma Num_arith [simp]:
  "Num x + Num y = Num (x + y)"
  "Num x - Num y = Num (x - y)"
  "Num x * Num y = Num (x * y)"
  "Num x / Num y = (if y = 0 then NaN else Num (x / y))"
  "Num x < Num y \<longleftrightarrow> x < y"
  "Num x \<le> Num y \<longleftrightarrow> x \<le> y"
  by (simp_all add: plus_number_def minus_number_def times_number_def divide_number_def
      less_number_def less_eq_number_def)

lemma NaN_arith [simp]:
  "NaN + u = NaN" "u + NaN = NaN" "NaN - u = NaN" "u - NaN = NaN"
  "NaN * u = NaN" "u * NaN = NaN" "NaN / u = NaN" "u / NaN = NaN"
  "\<not> NaN < u" "\<not> u < NaN" "\<not> NaN \<le> u" "\<not> u \<le> NaN"
  by (simp_all add: plus_number_def minus_number_def times_number_def divide_number_def
      less_number_def less_eq_number_def split: number.splits)

lemma numeral_number [simp]: "(numeral k :: number) = Num (numeral k)"
  by (induction k) (simp_all only: numeral.simps one_number_def Num_arith)

lemmas number_consts [simp] = zero_number_def one_number_def

lemma Math_simps [simp]:
  "Math_max (Num x) (Num y) = Num (max x y)"
  "Math_min (Num x) (Num y) = Num (min x y)"
  "Math_max NaN u = NaN" "Math_max u NaN = NaN"
  "Math_min NaN u = NaN" "Math_min u NaN = NaN"
  "Math_round (Num x) = Num (of_int \<lfloor>x + 1 / 2\<rfloor>)"
  "Math_round NaN = NaN"
  "Math_floor (Num x) = Num (of_int \<lfloor>x\<rfloor>)"
  "Math_floor NaN = NaN"
  "strictEq (Num x) (Num y) \<longleftrightarrow> x = y"
  "\<not> strictEq NaN u" "\<not> strictEq u NaN"
  by (simp_all add: Math_max_def Math_min_def Math_round_def Math_floor_def strictEq_def
      split: number.splits)


section \<open>Hex strings and channels\<close>

lemma hexDigit_code:
  assumes "isHexDigit c"
  shows "hexDigitVal c < 16"
    and "toUpperChar (hexDigitChar (hexDigitVal c)) = toUpperChar c"
    and "\<not> isWhiteSpace c" and "c \<noteq> CHR ''+''" and "c \<noteq> CHR ''-''"
    and "c \<noteq> CHR ''x''" and "c \<noteq> CHR ''X''" and "c \<noteq> CHR ''#''"
  using assms
  by (auto simp: isHexDigit_def isDigit_def isUpperAF_def isLowerAF_def hexDigitVal_def
      hexDigitChar_def toUpperChar_def isWhiteSpace_def)

lemma parseInt16_pair:
  assumes "isHexDigit c" "isHexDigit d"
  shows "parseInt16 [c, d] = Num (real (16 * hexDigitVal c + hexDigitVal d))"
  using assms hexDigit_code [of c] hexDigit_code [of d]
  by (simp add: parseInt16_def stripSign_def strip0x_def hexValue_def)

lemma hexDigitChar_0: "hexDigitChar 0 = CHR ''0''"
  by (simp add: hexDigitChar_def char_of_eq_iff)

lemma natToString16_pair:
  assumes "u < 16" "v < 16"
  shows "padStart (natToString16 (16 * u + v)) 2 = [hexDigitChar u, hexDigitChar v]"
proof (cases "u = 0")
  case True
  then show ?thesis
    using assms by (simp add: natToString16.simps padStart_def hexDigitChar_0)
next
  case False
  then have "\<not> 16 * u + v < 16" by simp
  moreover have "(16 * u + v) div 16 = u" "(16 * u + v) mod 16 = v"
    using assms by simp_all
  ultimately show ?thesis
    using assms
    by (simp add: natToString16.simps [of "16 * u + v"] natToString16.simps [of u] padStart_def)
qed

lemma toString16_nat: "toString16 (Num (real n)) = natToString16 n"
  by (simp add: toString16_def)

lemma clamp_byte:
  assumes "n \<le> 255"
  shows "clamp (Num (real n)) (Num 0) (Num 255) = Num (real n)"
  using assms by (simp add: clamp_def)

lemma toHex_pair:
  assumes "isHexDigit c" "isHexDigit d"
  shows "toHex (clamp (Math_round (clamp (parseInt16 [c, d]) (Num 0) (Num 255))) (Num 0) (Num 255))
    = [toUpperChar c, toUpperChar d]"
proof -
  let ?n = "16 * hexDigitVal c + hexDigitVal d"
  have lt: "hexDigitVal c < 16" "hexDigitVal d < 16"
    using assms hexDigit_code by auto
  then have n: "?n \<le> 255" by simp
  have "clamp (Math_round (clamp (parseInt16 [c, d]) (Num 0) (Num 255))) (Num 0) (Num 255)
      = Num (real ?n)"
    using n by (simp add: parseInt16_pair assms clamp_def min_def max_def)
  then have "toHex (clamp (Math_round (clamp (parseInt16 [c, d]) (Num 0) (Num 255))) (Num 0) (Num 255))
      = toUpperCase (padStart (natToString16 ?n) 2)"
    by (simp only: toHex_def toString16_nat)
  then show ?thesis
    using lt assms hexDigit_code(2) by (simp add: natToString16_pair toUpperCase_def)
qed

lemma length_six: "length ds = 6 \<Longrightarrow> \<exists>a b c d e f. ds = [a, b, c, d, e, f]"
  by (auto simp: length_Suc_conv eval_nat_numeral)

lemma isHex6_cases:
  assumes "isHex6 ds"
  obtains a b c d e f where "ds = [a, b, c, d, e, f]"
    and "isHexDigit a" "isHexDigit b" "isHexDigit c" "isHexDigit d" "isHexDigit e" "isHexDigit f"
  using assms length_six [of ds] by (auto simp: isHex6_def)



lemma rgbToHex_hexToRgb:
  assumes "isHex6 ds"
  shows "rgbToHex (hexToRgb ds) = CHR ''#'' # toUpperCase ds"
    and "rgbToHex (hexToRgb (CHR ''#'' # ds)) = CHR ''#'' # toUpperCase ds"
proof -
  from assms obtain a b c d e f where ds: "ds = [a, b, c, d, e, f]"
    and hx: "isHexDigit a" "isHexDigit b" "isHexDigit c" "isHexDigit d" "isHexDigit e" "isHexDigit f"
    by (rule isHex6_cases)
  have nh: "a \<noteq> CHR ''#''"
    using hx(1) by (rule hexDigit_code)
  show "rgbToHex (hexToRgb ds) = CHR ''#'' # toUpperCase ds"
    using nh
    by (simp add: ds rgbToHex_def hexToRgb_def stripHash_def substring_def toHex_pair hx
        toUpperCase_def)
  show "rgbToHex (hexToRgb (CHR ''#'' # ds)) = CHR ''#'' # toUpperCase ds"
    by (simp add: ds rgbToHex_def hexToRgb_def stripHash_def substring_def toHex_pair hx
        toUpperCase_def)
qed

lemma validHexInput_cases:
  assumes "validHexInput str"
  obtains "isHex6 str" "stripHash str = str" | ds where "str = CHR ''#'' # ds" "isHex6 ds"
proof (cases str)
  case Nil
  with assms show ?thesis by (simp add: validHexInput_def stripHash_def isHex6_def)
next
  case (Cons c cs)
  with assms that show ?thesis
    by (cases "c = CHR ''#''") (auto simp: validHexInput_def stripHash_def)
qed

lemma toUpperChar_upper: "isDigit d \<or> isUpperAF d \<Longrightarrow> toUpperChar d = d"
  by (auto simp: toUpperChar_def isDigit_def isUpperAF_def)

lemma toUpperCase_upper:
  "list_all (\<lambda>d. isDigit d \<or> isUpperAF d) ds \<Longrightarrow> toUpperCase ds = ds"
  by (induction ds) (simp_all add: toUpperCase_def toUpperChar_upper)


text \<open>
  C3, as amended. For every valid 6-digit hex input, with or without the leading \<open>#\<close>
  and in either case of the letters, \<open>rgbToHex (hexToRgb h)\<close> is \<open>#\<close> followed by the six
  digits in upper case. It is \<open>h\<close> itself when \<open>h\<close> is in that form already.
\<close>

theorem rgbToHex_hexToRgb_canonical:
  assumes "validHexInput str"
  shows "rgbToHex (hexToRgb str) = CHR ''#'' # toUpperCase (stripHash str)
    \<and> (isCanonicalHex str \<longrightarrow> rgbToHex (hexToRgb str) = str)"
proof -
  have eq: "rgbToHex (hexToRgb str) = CHR ''#'' # toUpperCase (stripHash str)"
    using assms
  proof (cases rule: validHexInput_cases)
    case 1
    then show ?thesis by (simp add: rgbToHex_hexToRgb)
  next
    case (2 ds)
    then show ?thesis by (simp add: rgbToHex_hexToRgb stripHash_def)
  qed
  moreover have "rgbToHex (hexToRgb str) = str" if "isCanonicalHex str"
  proof -
    from that obtain ds where str: "str = CHR ''#'' # ds"
      and up: "list_all (\<lambda>d. isDigit d \<or> isUpperAF d) ds"
      by (cases str) (auto simp: isCanonicalHex_def)
    show ?thesis
      using eq toUpperCase_upper [OF up] by (simp add: str stripHash_def)
  qed
  ultimately show ?thesis by blast
qed

theorem rgbToHex_hexToRgb_canonical_witness:
  "validHexInput ''#FF00A0'' \<and> isCanonicalHex ''#FF00A0''
    \<and> rgbToHex (hexToRgb ''#FF00A0'') = ''#FF00A0''"
proof -
  have v: "validHexInput ''#FF00A0''"
    by (simp add: validHexInput_def stripHash_def isHex6_def isHexDigit_def isDigit_def
        isUpperAF_def isLowerAF_def)
  have c: "isCanonicalHex ''#FF00A0''"
    by (simp add: isCanonicalHex_def isDigit_def isUpperAF_def)
  show ?thesis
    using rgbToHex_hexToRgb_canonical [OF v] v c by blast
qed

text \<open>
  C3 as it is stated fails: the input \<open>ff00a0\<close> is six hexadecimal digits, and the result
  \<open>#FF00A0\<close> has the prefix and the upper case that the input has not.
\<close>

theorem rgbToHex_hexToRgb_counterexample:
  "validHexInput ''ff00a0'' \<and> rgbToHex (hexToRgb ''ff00a0'') = ''#FF00A0''
    \<and> rgbToHex (hexToRgb ''ff00a0'') \<noteq> ''ff00a0''"
  by (simp add: validHexInput_def isHex6_def hexToRgb_def stripHash_def substring_def
      parseInt16_def isWhiteSpace_def stripSign_def strip0x_def isHexDigit_def isDigit_def
      isUpperAF_def isLowerAF_def clamp_def rgbToHex_def toHex_def toUpperCase_def
      toUpperChar_def padStart_def toString16_def natToString16.simps hexDigitChar_def
      hexValue_def hexDigitVal_def char_of_eq_iff)




section \<open>The range of rgbToHsl\<close>

lemma clamp_round:
  assumes "v \<noteq> NaN" "0 \<le> N"
  shows "isIntIn 0 N (clamp (Math_round v) (Num 0) (Num (of_int N)))"
proof -
  from assms obtain a where v: "v = Num a" by (cases v) auto
  let ?k = "min (max \<lfloor>a + 1 / 2\<rfloor> 0) N"
  have "clamp (Math_round v) (Num 0) (Num (of_int N)) = Num (of_int ?k)"
    by (simp add: v clamp_def min_def max_def)
  moreover have "0 \<le> ?k" "?k \<le> N" using assms by simp_all
  ultimately show ?thesis by (simp add: isIntIn_def)
qed

lemma rgbToHsl_pre:
  fixes x y z :: real
  assumes "0 \<le> x" "x \<le> 1" "0 \<le> y" "y \<le> 1" "0 \<le> z" "z \<le> 1"
  defines "mx \<equiv> max (max x y) z" and "mn \<equiv> min (min x y) z"
  shows "mx - mn \<noteq> 0 \<Longrightarrow> mx + mn \<noteq> 0" and "mx - mn \<noteq> 0 \<Longrightarrow> 2 - mx - mn \<noteq> 0"
  using assms by (auto simp: max_def min_def split: if_splits)

lemma rgbToHsl_Num:
  "isIntIn 0 360 (h (rgbToHsl \<lparr>r = Num a, g = Num b', b = Num c'\<rparr>)) \<and>
   isIntIn 0 100 (s (rgbToHsl \<lparr>r = Num a, g = Num b', b = Num c'\<rparr>)) \<and>
   isIntIn 0 100 (l (rgbToHsl \<lparr>r = Num a, g = Num b', b = Num c'\<rparr>))"
proof -
  define x where "x = min (max a 0) 255 / 255"
  define y where "y = min (max b' 0) 255 / 255"
  define z where "z = min (max c' 0) 255 / 255"
  define mx where "mx = max (max x y) z"
  define mn where "mn = min (min x y) z"
  define delta where "delta = Num mx - Num mn"
  define ll where "ll = (Num mx + Num mn) / 2"
  define ss where "ss = (if \<not> strictEq delta 0
                then (if Num 0.5 < ll then delta / (2 - Num mx - Num mn) else delta / (Num mx + Num mn))
                else 0)"
  define hh where "hh = (if \<not> strictEq delta 0
                then (if strictEq (Num mx) (Num x) then ((Num y - Num z) / delta + (if Num y < Num z then 6 else 0)) / 6
                      else if strictEq (Num mx) (Num y) then ((Num z - Num x) / delta + 2) / 6
                      else if strictEq (Num mx) (Num z) then ((Num x - Num y) / delta + 4) / 6
                      else 0)
                else 0)"
  have bnd: "0 \<le> x" "x \<le> 1" "0 \<le> y" "y \<le> 1" "0 \<le> z" "z \<le> 1"
    by (simp_all add: x_def y_def z_def)
  have cl: "clamp (Num a) 0 255 / 255 = Num x"
    "clamp (Num b') 0 255 / 255 = Num y"
    "clamp (Num c') 0 255 / 255 = Num z"
    by (simp_all add: clamp_def x_def y_def z_def)
  have mm: "Math_max (Math_max (Num x) (Num y)) (Num z) = Num mx"
    "Math_min (Math_min (Num x) (Num y)) (Num z) = Num mn"
    by (simp_all add: mx_def mn_def)
  have nz: "mx - mn \<noteq> 0 \<Longrightarrow> mx + mn \<noteq> 0" "mx - mn \<noteq> 0 \<Longrightarrow> 2 - mx - mn \<noteq> 0"
    using rgbToHsl_pre[OF bnd] by (simp_all add: mx_def mn_def)
  have eq: "rgbToHsl \<lparr>r = Num a, g = Num b', b = Num c'\<rparr> =
       \<lparr> h = clamp (Math_round (hh * 360)) 0 360,
           s = clamp (Math_round (ss * 100)) 0 100,
           l = clamp (Math_round (ll * 100)) 0 100 \<rparr>"
    unfolding rgbToHsl_def RGB.simps cl mm Let_def hh_def ss_def ll_def delta_def ..
  have d: "delta = Num (mx - mn)" by (simp add: delta_def)
  have l: "ll * 360 \<noteq> NaN" "ll * 100 \<noteq> NaN" by (simp_all add: ll_def)
  have s: "ss * 100 \<noteq> NaN"
  proof (cases "mx - mn = 0")
    case True
    then show ?thesis by (simp add: ss_def d)
  next
    case False
    with nz have "mx + mn \<noteq> 0" "2 - mx - mn \<noteq> 0" by simp_all
    with False show ?thesis by (simp add: ss_def d ll_def)
  qed
  have h: "hh * 360 \<noteq> NaN"
    by (simp add: hh_def d)
  have "isIntIn 0 360 (clamp (Math_round (hh * 360)) 0 360)"
    using clamp_round [OF h, of 360] by simp
  moreover have "isIntIn 0 100 (clamp (Math_round (ss * 100)) 0 100)"
    using clamp_round [OF s, of 100] by simp
  moreover have "isIntIn 0 100 (clamp (Math_round (ll * 100)) 0 100)"
    using clamp_round [OF l(2), of 100] by simp
  ultimately show ?thesis unfolding eq by simp
qed

text \<open>
  C5, as amended. For channels that are integers from 0 to 255, \<open>rgbToHsl\<close> returns
  integers: \<open>h\<close> from 0 to 360, both ends included, and \<open>s\<close> and \<open>l\<close> from 0 to 100.
\<close>

theorem rgbToHsl_range:
  assumes "isIntIn 0 255 (r c)" "isIntIn 0 255 (g c)" "isIntIn 0 255 (b c)"
  shows "isIntIn 0 360 (h (rgbToHsl c)) \<and> isIntIn 0 100 (s (rgbToHsl c))
    \<and> isIntIn 0 100 (l (rgbToHsl c))"
proof -
  from assms obtain x y z where "r c = Num x" "g c = Num y" "b c = Num z"
    by (auto simp: isIntIn_def split: number.splits)
  then have "c = \<lparr>r = Num x, g = Num y, b = Num z\<rparr>"
    by (cases c) simp
  then show ?thesis
    using rgbToHsl_Num [of x y z] by simp
qed

theorem rgbToHsl_range_witness:
  "isIntIn 0 255 (r \<lparr>r = Num 255, g = Num 0, b = Num 1\<rparr>)
    \<and> isIntIn 0 360 (h (rgbToHsl \<lparr>r = Num 255, g = Num 0, b = Num 1\<rparr>))"
proof -
  have "isIntIn 0 255 (Num 255)" "isIntIn 0 255 (Num 0)" "isIntIn 0 255 (Num 1)"
    by (simp_all add: isIntIn_def)
  then show ?thesis
    using rgbToHsl_range [of "\<lparr>r = Num 255, g = Num 0, b = Num 1\<rparr>"] by simp
qed

text \<open>
  C5 as it is stated fails: the hue of \<open>rgb(255, 0, 1)\<close> is 359.76 before rounding and
  360 after it, which is not below 360.
\<close>

theorem rgbToHsl_counterexample:
  "h (rgbToHsl \<lparr>r = Num 255, g = Num 0, b = Num 1\<rparr>) = Num 360
    \<and> \<not> h (rgbToHsl \<lparr>r = Num 255, g = Num 0, b = Num 1\<rparr>) < Num 360"
  by (simp add: rgbToHsl_def Let_def clamp_def)

section \<open>The analogous palette\<close>

lemma remainder_Num [simp]:
  "remainder (Num a) (Num d) = (if d = 0 then NaN else Num (a - d * of_int (truncate (a / d))))"
  by (simp add: remainder_def)













section \<open>The contrast ratio\<close>

lemma Math_max_commute: "Math_max x y = Math_max y x"
  by (cases x; cases y) (simp_all add: max.commute)

lemma Math_min_commute: "Math_min x y = Math_min y x"
  by (cases x; cases y) (simp_all add: min.commute)

lemma gammaCorrect_range:
  assumes "0 \<le> v" "v \<le> 1"
  obtains w where "gammaCorrect (Num v) = Num w" "0 \<le> w" "w \<le> 1"
proof (cases "v \<le> 0.03928")
  case True
  have "gammaCorrect (Num v) = Num (v / 12.92)" using True by (simp add: gammaCorrect_def)
  moreover have "0 \<le> v / 12.92" "v / 12.92 \<le> 1" using assms by simp_all
  ultimately show ?thesis using that by blast
next
  case False
  define u where "u = (v + 0.055) / 1.055"
  have u: "0 \<le> u" "u \<le> 1" using assms by (simp_all add: u_def)
  have "gammaCorrect (Num v) = Num (u powr 2.4)"
    using False u by (simp add: gammaCorrect_def Math_pow_def u_def)
  moreover have "0 \<le> u powr 2.4" by simp
  moreover have "u powr 2.4 \<le> 1" using u by (simp add: powr_le1)
  ultimately show ?thesis using that by blast
qed

lemma channel_unit:
  assumes "isByte x"
  obtains v where "x / 255 = Num v" "0 \<le> v" "v \<le> 1"
proof -
  from assms obtain a where "x = Num a" "0 \<le> a" "a \<le> 255"
    by (cases x) (auto simp: isByte_def)
  then have "x / 255 = Num (a / 255)" "0 \<le> a / 255" "a / 255 \<le> 1" by simp_all
  then show ?thesis using that by blast
qed

lemma luminance_range:
  assumes "list_all isByte (channels c)"
  obtains L where "getRelativeLuminance c = Num L" "0 \<le> L" "L \<le> 1"
proof -
  from assms have "isByte (r c)" "isByte (g c)" "isByte (b c)" by (simp_all add: channels_def)
  then obtain vr vg vb where v: "r c / 255 = Num vr" "0 \<le> vr" "vr \<le> 1"
    "g c / 255 = Num vg" "0 \<le> vg" "vg \<le> 1" "b c / 255 = Num vb" "0 \<le> vb" "vb \<le> 1"
    using channel_unit by metis
  obtain wr where wr: "gammaCorrect (Num vr) = Num wr" "0 \<le> wr" "wr \<le> 1"
    using gammaCorrect_range v(2,3) by blast
  obtain wg where wg: "gammaCorrect (Num vg) = Num wg" "0 \<le> wg" "wg \<le> 1"
    using gammaCorrect_range v(5,6) by blast
  obtain wb where wb: "gammaCorrect (Num vb) = Num wb" "0 \<le> wb" "wb \<le> 1"
    using gammaCorrect_range v(8,9) by blast
  have "getRelativeLuminance c = Num (0.2126 * wr + 0.7152 * wg + 0.0722 * wb)"
    unfolding getRelativeLuminance_def Let_def v(1,4,7) wr(1) wg(1) wb(1) by simp
  moreover have "0 \<le> 0.2126 * wr + 0.7152 * wg + 0.0722 * wb"
    using wr(2) wg(2) wb(2) by simp
  moreover have "0.2126 * wr + 0.7152 * wg + 0.0722 * wb \<le> 1"
    using wr(3) wg(3) wb(3) by simp
  ultimately show ?thesis using that by blast
qed

lemma lum_black: "getRelativeLuminance black = Num 0"
  by (simp add: getRelativeLuminance_def black_def gammaCorrect_def Let_def)

lemma lum_white: "getRelativeLuminance white = Num 1"
  by (simp add: getRelativeLuminance_def white_def gammaCorrect_def Let_def Math_pow_def)

text \<open>
  C9. The contrast ratio of two colors does not depend on their order.
\<close>

theorem contrast_symmetric: "calculateContrastRatio c1 c2 = calculateContrastRatio c2 c1"
  by (simp add: calculateContrastRatio_def Let_def Math_max_commute [of "getRelativeLuminance c1"]
      Math_min_commute [of "getRelativeLuminance c1"])

text \<open>
  C8. For channels between 0 and 255 the contrast ratio lies between 1 and 21; the ratio
  of a color with itself is 1, and the ratio of black and white is 21.
\<close>

theorem contrast_range:
  assumes "list_all isByte (channels c1)" "list_all isByte (channels c2)"
  shows "1 \<le> calculateContrastRatio c1 c2 \<and> calculateContrastRatio c1 c2 \<le> 21
    \<and> calculateContrastRatio c1 c1 = 1
    \<and> calculateContrastRatio black white = 21 \<and> calculateContrastRatio white black = 21"
proof -
  obtain L1 where L1: "getRelativeLuminance c1 = Num L1" "0 \<le> L1" "L1 \<le> 1"
    using luminance_range [OF assms(1)] by blast
  obtain L2 where L2: "getRelativeLuminance c2 = Num L2" "0 \<le> L2" "L2 \<le> 1"
    using luminance_range [OF assms(2)] by blast
  let ?hi = "max L1 L2" and ?lo = "min L1 L2"
  have pos: "0 < ?lo + 0.05" using L1 L2 by simp
  have eq: "calculateContrastRatio c1 c2 = Num ((?hi + 0.05) / (?lo + 0.05))"
    using pos by (simp add: calculateContrastRatio_def Let_def L1(1) L2(1))
  have "?lo + 0.05 \<le> ?hi + 0.05" by simp
  then have lower: "1 \<le> (?hi + 0.05) / (?lo + 0.05)"
    using pos by (simp add: le_divide_eq)
  have "?hi + 0.05 \<le> 21 * (?lo + 0.05)" using L1 L2 by simp
  then have upper: "(?hi + 0.05) / (?lo + 0.05) \<le> 21"
    using pos by (simp add: divide_le_eq)
  have same: "calculateContrastRatio c1 c1 = 1"
    using L1 by (simp add: calculateContrastRatio_def Let_def)
  have bw: "calculateContrastRatio black white = 21" "calculateContrastRatio white black = 21"
    by (simp_all add: calculateContrastRatio_def Let_def lum_black lum_white)
  from lower upper same bw show ?thesis unfolding eq by simp
qed


theorem contrast_range_witness:
  "list_all isByte (channels black) \<and> list_all isByte (channels white)
    \<and> 1 \<le> calculateContrastRatio black white \<and> calculateContrastRatio black white \<le> 21"
proof -
  have "list_all isByte (channels black)" "list_all isByte (channels white)"
    by (simp_all add: channels_def isByte_def black_def white_def)
  then show ?thesis
    using contrast_range [of black white] by simp
qed

section \<open>The decoder\<close>

lemma decodeColors_eq:
  "decodeColors ts = (if list_all isHex6 ts then Some (map colorOfToken ts) else None)"
  by (induction ts) (simp_all add: Let_def colorOfToken_def)

lemma length_five: "length xs = 5 \<Longrightarrow> \<exists>a b c d e. xs = [a, b, c, d, e]"
  by (auto simp: length_Suc_conv eval_nat_numeral)

lemma upt_5: "[0..<5] = [0, 1, 2, 3, 4]"
  by (simp add: upt_rec)

lemma applyLocks_five:
  "applyLocks [c0, c1, c2, c3, c4] lp =
    [c0\<lparr>locked := (lp ! 0 = CHR ''1'')\<rparr>, c1\<lparr>locked := (lp ! 1 = CHR ''1'')\<rparr>,
     c2\<lparr>locked := (lp ! 2 = CHR ''1'')\<rparr>, c3\<lparr>locked := (lp ! 3 = CHR ''1'')\<rparr>,
     c4\<lparr>locked := (lp ! 4 = CHR ''1'')\<rparr>]"
  by (simp add: applyLocks_def upt_5)

lemma applyLocks_map:
  assumes "length cs = 5"
  shows "applyLocks cs lp = map (\<lambda>(c, i). c\<lparr>locked := (lp ! i = CHR ''1'')\<rparr>) (zip cs [0..<5])"
proof -
  from assms obtain a b c d e where "cs = [a, b, c, d, e]" using length_five by blast
  then show ?thesis by (simp add: applyLocks_five upt_5)
qed

lemma splitOn_empty: "splitOn sep [] = [[]]" by simp

lemma find_rule: "find (\<lambda>rl. ruleName rl = nm) validRules = Some rl \<longleftrightarrow> ruleName rl = nm"
  by (cases rl) (auto simp: validRules_def)

lemma find_rule_None: "find (\<lambda>rl. ruleName rl = nm) validRules = None \<longleftrightarrow> nm \<notin> set (map ruleName validRules)"
  by (auto simp: validRules_def)

lemma decodePaletteFromUrl_eq:
  "decodePaletteFromUrl u =
    (if decodeFails u then None
     else Some \<lparr> colors =
            (let cs = map colorOfToken (splitOn CHR '','' (the (paramOf u ''colors'')))
             in if locksWellFormed u then applyLocks cs (the (paramOf u ''locks'')) else cs),
          harmonyRule =
            (if harmonyKnown u then find (\<lambda>rl. ruleName rl = the (paramOf u ''harmony'')) validRules
             else None) \<rparr>)"
proof (cases "stripHash u = []")
  case True
  then show ?thesis by (simp add: decodePaletteFromUrl_def decodeFails_def)
next
  case ne: False
  show ?thesis
  proof (cases "paramOf u ''colors''")
    case None
    with ne show ?thesis
      by (simp add: decodePaletteFromUrl_def decodeFails_def paramOf_def Let_def)
  next
    case (Some cp)
    have l5: "isLocks5 lp \<Longrightarrow> lp \<noteq> []" for lp by (auto simp: isLocks5_def)
    have hk: "nm \<in> set (map ruleName validRules) \<Longrightarrow> nm \<noteq> []" for nm
      by (auto simp: validRules_def)
    have fn: "nm \<notin> set (map ruleName validRules) \<Longrightarrow> find (\<lambda>rl. ruleName rl = nm) validRules = None" for nm
      by (simp add: find_rule_None)
    show ?thesis
    proof (cases "cp = []")
      case True
      with ne Some show ?thesis
        by (simp add: decodePaletteFromUrl_def decodeFails_def paramOf_def Let_def)
    next
      case False
      with ne Some show ?thesis
        using l5 hk fn
        by (auto simp: decodePaletteFromUrl_def decodeFails_def paramOf_def Let_def decodeColors_eq
            locksWellFormed_def harmonyKnown_def split: option.splits)
    qed
  qed
qed

lemmas url_eval = paramOf_def URLSearchParams_get_def URLSearchParams_new_def stripHash_def
  parsePair_def plusToSpace_def

lemma softUrl_params:
  "stripHash softUrl \<noteq> []"
  "paramOf softUrl ''colors'' = Some ''FF0000,00FF00,0000FF,FFFF00,FF00FF''"
  "paramOf softUrl ''locks'' = Some ''111''"
  "paramOf softUrl ''harmony'' = Some ''invalid''"
  by (simp_all add: softUrl_def url_eval)

lemma lowerUrl_params:
  "stripHash lowerUrl \<noteq> []"
  "paramOf lowerUrl ''colors'' = Some ''ff0000,00ff00,0000ff,ffff00,ff00ff''"
  "paramOf lowerUrl ''locks'' = Some ''10101''"
  "paramOf lowerUrl ''harmony'' = Some ''triadic''"
  by (simp_all add: lowerUrl_def url_eval)

lemmas hex_eval = isHex6_def isHexDigit_def isDigit_def isUpperAF_def isLowerAF_def

lemma softUrl_ok: "\<not> decodeFails softUrl" "\<not> locksWellFormed softUrl" "\<not> harmonyKnown softUrl"
  by (simp_all add: decodeFails_def locksWellFormed_def harmonyKnown_def softUrl_params hex_eval
      isLocks5_def validRules_def)

lemma lowerUrl_ok: "\<not> decodeFails lowerUrl"
  by (simp add: decodeFails_def lowerUrl_params hex_eval)

text \<open>
  C4. \<open>decodePaletteFromUrl\<close> returns \<open>null\<close> exactly when the input is empty after one
  leading \<open>#\<close> is removed, the \<open>colors\<close> parameter is missing, its list of tokens has
  not 5 elements, or a token is not 6 hexadecimal digits. When it returns a palette, a
  missing or malformed \<open>locks\<close> parameter leaves every color unlocked, and a missing or
  unknown \<open>harmony\<close> parameter leaves the rule out.
\<close>

theorem decode_null_iff:
  "(decodePaletteFromUrl u = None \<longleftrightarrow> decodeFails u)
   \<and> (\<forall>p. decodePaletteFromUrl u = Some p \<longrightarrow>
        (\<not> locksWellFormed u \<longrightarrow> list_all (\<lambda>c. \<not> locked c) (colors p))
        \<and> (\<not> harmonyKnown u \<longrightarrow> harmonyRule p = None))"
  by (auto simp: decodePaletteFromUrl_eq Let_def list_all_iff colorOfToken_def)

theorem decode_null_iff_witness:
  "\<not> decodeFails softUrl \<and> \<not> locksWellFormed softUrl \<and> \<not> harmonyKnown softUrl
   \<and> decodePaletteFromUrl softUrl \<noteq> None
   \<and> list_all (\<lambda>c. \<not> locked c) (colors (the (decodePaletteFromUrl softUrl)))
   \<and> harmonyRule (the (decodePaletteFromUrl softUrl)) = None"
proof -
  from decode_null_iff [of softUrl] softUrl_ok(1)
  obtain p where p: "decodePaletteFromUrl softUrl = Some p" by auto
  with decode_null_iff [of softUrl] softUrl_ok show ?thesis by simp
qed

text \<open>
  C10. When \<open>decodePaletteFromUrl\<close> returns a palette, the hex of each color is \<open>#\<close>
  and the upper case of its token of 6 hexadecimal digits, its \<open>rgb\<close> is \<open>hexToRgb\<close>
  of that hex, its \<open>hsl\<close> is \<open>rgbToHsl\<close> of that \<open>rgb\<close>, and a rule that is present
  is one of the five rules, the one named by the \<open>harmony\<close> parameter.
\<close>

theorem decode_fields:
  assumes "decodePaletteFromUrl u = Some p"
  shows "\<exists>cp. paramOf u ''colors'' = Some cp
     \<and> length (splitOn CHR '','' cp) = 5 \<and> list_all isHex6 (splitOn CHR '','' cp)
     \<and> map hex (colors p) = map (\<lambda>t. CHR ''#'' # toUpperCase t) (splitOn CHR '','' cp)
     \<and> list_all (\<lambda>c. rgb c = hexToRgb (hex c) \<and> hsl c = rgbToHsl (rgb c)) (colors p)
     \<and> (\<forall>rl. harmonyRule p = Some rl \<longrightarrow>
          rl \<in> set validRules \<and> paramOf u ''harmony'' = Some (ruleName rl))"
proof -
  from assms have nf: "\<not> decodeFails u"
    by (auto simp: decodePaletteFromUrl_eq split: if_splits)
  then obtain cp where cp: "paramOf u ''colors'' = Some cp"
    and len: "length (splitOn CHR '','' cp) = 5" and hx: "list_all isHex6 (splitOn CHR '','' cp)"
    by (auto simp: decodeFails_def split: option.splits)
  from len obtain t0 t1 t2 t3 t4 where ts: "splitOn CHR '','' cp = [t0, t1, t2, t3, t4]"
    using length_five by blast
  have p: "p = \<lparr> colors =
            (let cs = map colorOfToken (splitOn CHR '','' (the (paramOf u ''colors'')))
             in if locksWellFormed u then applyLocks cs (the (paramOf u ''locks'')) else cs),
          harmonyRule =
            (if harmonyKnown u then find (\<lambda>rl. ruleName rl = the (paramOf u ''harmony'')) validRules
             else None) \<rparr>"
    using assms nf by (simp add: decodePaletteFromUrl_eq)
  have a: "map hex (colors p) = map (\<lambda>t. CHR ''#'' # toUpperCase t) (splitOn CHR '','' cp)"
    by (simp add: p cp ts applyLocks_five colorOfToken_def Let_def)
  have b: "list_all (\<lambda>c. rgb c = hexToRgb (hex c) \<and> hsl c = rgbToHsl (rgb c)) (colors p)"
    by (simp add: p cp ts applyLocks_five colorOfToken_def Let_def)
  have c: "rl \<in> set validRules \<and> paramOf u ''harmony'' = Some (ruleName rl)"
    if "harmonyRule p = Some rl" for rl
  proof -
    from that have hk: "harmonyKnown u"
      and f: "find (\<lambda>rl. ruleName rl = the (paramOf u ''harmony'')) validRules = Some rl"
      by (auto simp: p split: if_splits)
    from f have "ruleName rl = the (paramOf u ''harmony'')" by (simp add: find_rule)
    moreover from hk obtain hp where "paramOf u ''harmony'' = Some hp"
      by (auto simp: harmonyKnown_def split: option.splits)
    moreover have "rl \<in> set validRules" by (cases rl) (simp_all add: validRules_def)
    ultimately show ?thesis by simp
  qed
  from cp len hx a b c show ?thesis by blast
qed

theorem decode_fields_witness:
  "decodePaletteFromUrl lowerUrl \<noteq> None
   \<and> map hex (colors (the (decodePaletteFromUrl lowerUrl))) =
       [''#FF0000'', ''#00FF00'', ''#0000FF'', ''#FFFF00'', ''#FF00FF'']
   \<and> harmonyRule (the (decodePaletteFromUrl lowerUrl)) = Some triadic"
proof -
  from lowerUrl_ok obtain p where p: "decodePaletteFromUrl lowerUrl = Some p"
    by (auto simp: decodePaletteFromUrl_eq)
  from decode_fields [OF p] have "map hex (colors p) =
      map (\<lambda>t. CHR ''#'' # toUpperCase t) (splitOn CHR '','' ''ff0000,00ff00,0000ff,ffff00,ff00ff'')"
    and h: "\<forall>rl. harmonyRule p = Some rl \<longrightarrow> paramOf lowerUrl ''harmony'' = Some (ruleName rl)"
    by (auto simp: lowerUrl_params)
  then have "map hex (colors p) = [''#FF0000'', ''#00FF00'', ''#0000FF'', ''#FFFF00'', ''#FF00FF'']"
    by (simp add: toUpperCase_def toUpperChar_def char_of_eq_iff)
  moreover have "harmonyRule p = Some triadic"
    using p by (auto simp: decodePaletteFromUrl_eq lowerUrl_ok harmonyKnown_def lowerUrl_params validRules_def)
  ultimately show ?thesis using p by simp
qed

section \<open>Encoding and decoding again\<close>

lemma percentDecode_plain:
  assumes "c \<noteq> CHR ''%''"
  shows "percentDecode (c # cs) = c # percentDecode cs"
proof (cases cs)
  case Nil
  then show ?thesis by simp
next
  case (Cons d ds)
  with assms show ?thesis by (cases ds) simp_all
qed

lemma upperHexDigitChar_props:
  assumes "d < 16"
  shows "isHexDigit (upperHexDigitChar d)" and "hexDigitVal (upperHexDigitChar d) = d"
    and "upperHexDigitChar d \<noteq> CHR ''+''" and "upperHexDigitChar d \<noteq> CHR ''&''"
    and "upperHexDigitChar d \<noteq> CHR ''=''" and "upperHexDigitChar d \<noteq> CHR ''?''"
    and "upperHexDigitChar d \<noteq> CHR ''#''"
  using assms
  by (auto simp: upperHexDigitChar_def isHexDigit_def isDigit_def isUpperAF_def isLowerAF_def
      hexDigitVal_def char_of_eq_iff take_bit_eq_mod)

lemma formSafe_props:
  assumes "isFormSafe c"
  shows "c \<noteq> CHR ''+''" "c \<noteq> CHR ''%''" "c \<noteq> CHR ''&''" "c \<noteq> CHR ''=''" "c \<noteq> CHR ''?''"
    "c \<noteq> CHR ''#''" "c \<noteq> CHR '' ''"
  using assms by (auto simp: isFormSafe_def isAlnum_def Let_def)

lemma byte_split: "16 * ((of_char c :: nat) div 16) + (of_char c :: nat) mod 16 = of_char c"
  by (rule mult_div_mod_eq)

lemma of_char_div: "(of_char c :: nat) div 16 < 16"
proof -
  have "(of_char c :: nat) < 16 * 16" by simp
  then show ?thesis by (rule less_mult_imp_div_less)
qed

lemma decode_serializeByte:
  "percentDecode (plusToSpace (serializeByte c @ rest)) = c # percentDecode (plusToSpace rest)"
proof -
  consider "c = CHR '' ''" | "c \<noteq> CHR '' ''" "isFormSafe c" | "c \<noteq> CHR '' ''" "\<not> isFormSafe c"
    by blast
  then show ?thesis
  proof cases
    case 1
    then show ?thesis by (simp add: serializeByte_def plusToSpace_def percentDecode_plain)
  next
    case 2
    then show ?thesis
      using formSafe_props [OF 2(2)]
      by (simp add: serializeByte_def plusToSpace_def percentDecode_plain)
  next
    case 3
    let ?hi = "(of_char c :: nat) div 16" and ?lo = "(of_char c :: nat) mod 16"
    have hi: "?hi < 16" by (rule of_char_div)
    have lo: "?lo < 16" by simp
    have "char_of (16 * ?hi + ?lo) = c" by (simp only: byte_split char_of_char)
    then show ?thesis
      using 3 upperHexDigitChar_props [OF hi] upperHexDigitChar_props [OF lo]
      by (simp add: serializeByte_def plusToSpace_def)
  qed
qed

lemma decode_serializeBytes: "percentDecode (plusToSpace (serializeBytes str @ rest)) = str @ percentDecode (plusToSpace rest)"
  by (induction str) (simp_all add: serializeBytes_def decode_serializeByte)

lemma plusToSpace_Nil: "plusToSpace [] = []"
  by (simp add: plusToSpace_def)

lemma decode_serializeBytes': "percentDecode (plusToSpace (serializeBytes str)) = str"
  using decode_serializeBytes [of str "[]"] by (simp add: plusToSpace_Nil)

lemma upperHexDigitChar_safe:
  assumes "d < 16"
  shows "isFormSafe (upperHexDigitChar d)"
proof -
  have "(of_char (upperHexDigitChar d) :: nat) = (if d < 10 then 48 + d else 55 + d)"
    using assms by (simp add: upperHexDigitChar_def)
  then have "isAlnum (upperHexDigitChar d)"
    using assms by (simp add: isAlnum_def Let_def)
  then show ?thesis by (simp add: isFormSafe_def)
qed

lemma serializeByte_chars: "list_all isUrlChar (serializeByte c)"
proof -
  have "isFormSafe (upperHexDigitChar (of_char c div 16))"
    by (rule upperHexDigitChar_safe) (rule of_char_div)
  moreover have "isFormSafe (upperHexDigitChar (of_char c mod 16))"
    by (rule upperHexDigitChar_safe) simp
  ultimately show ?thesis
    by (simp add: serializeByte_def isUrlChar_def)
qed

lemma serializeBytes_chars: "list_all isUrlChar (serializeBytes str)"
  by (induction str) (simp_all add: serializeBytes_def serializeByte_chars)

lemma urlChar_not:
  assumes "isUrlChar c"
  shows "c \<noteq> CHR ''&''" "c \<noteq> CHR ''=''" "c \<noteq> CHR ''?''" "c \<noteq> CHR ''#''"
proof -
  from assms have d: "isFormSafe c \<or> c = CHR ''+'' \<or> c = CHR ''%''"
    by (simp only: isUrlChar_def)
  from d show "c \<noteq> CHR ''&''"
    using formSafe_props(3) [of c] by (elim disjE) simp_all
  from d show "c \<noteq> CHR ''=''"
    using formSafe_props(4) [of c] by (elim disjE) simp_all
  from d show "c \<noteq> CHR ''?''"
    using formSafe_props(5) [of c] by (elim disjE) simp_all
  from d show "c \<noteq> CHR ''#''"
    using formSafe_props(6) [of c] by (elim disjE) simp_all
qed

lemma urlChar_props:
  assumes "list_all isUrlChar str"
  shows "CHR ''&'' \<notin> set str" "CHR ''='' \<notin> set str" "CHR ''?'' \<notin> set str" "CHR ''#'' \<notin> set str"
proof -
  from assms have a: "\<And>c. c \<in> set str \<Longrightarrow> isUrlChar c"
    by (simp add: list_all_iff)
  show "CHR ''&'' \<notin> set str" using a urlChar_not(1) by blast
  show "CHR ''='' \<notin> set str" using a urlChar_not(2) by blast
  show "CHR ''?'' \<notin> set str" using a urlChar_not(3) by blast
  show "CHR ''#'' \<notin> set str" using a urlChar_not(4) by blast
qed

lemma splitOn_nonempty: "splitOn sep str \<noteq> []"
  by (induction str) (auto split: list.splits)

lemma splitOn_no_sep: "sep \<notin> set xs \<Longrightarrow> splitOn sep xs = [xs]"
  by (induction xs) auto

lemma splitOn_append: "sep \<notin> set xs \<Longrightarrow> splitOn sep (xs @ sep # ys) = xs # splitOn sep ys"
proof (induction xs)
  case Nil
  then show ?case by simp
next
  case (Cons a xs)
  then have "a \<noteq> sep" "sep \<notin> set xs" by auto
  with Cons.IH show ?case by simp
qed

lemma splitOn_join:
  assumes "xs \<noteq> []" "\<forall>x \<in> set xs. sep \<notin> set x"
  shows "splitOn sep (join [sep] xs) = xs"
  using assms
proof (induction "[sep]" xs rule: join.induct)
  case 1
  then show ?case by simp
next
  case (2 x)
  then show ?case by (simp add: splitOn_no_sep)
next
  case (3 x y ys)
  then show ?case by (simp add: splitOn_append)
qed

lemma parsePair_serialized:
  "parsePair (serializeBytes n @ ''='' @ serializeBytes v) = (n, v)"
proof -
  have ne: "CHR ''='' \<notin> set (serializeBytes n)"
    using urlChar_props(2) [OF serializeBytes_chars] .
  then have "takeWhile (\<lambda>c. c \<noteq> CHR ''='') (serializeBytes n @ ''='' @ serializeBytes v) = serializeBytes n"
    by (simp add: takeWhile_append)
  moreover from ne have "dropWhile (\<lambda>c. c \<noteq> CHR ''='') (serializeBytes n @ ''='' @ serializeBytes v) = ''='' @ serializeBytes v"
    by (simp add: dropWhile_append)
  ultimately show ?thesis
    by (simp add: parsePair_def Let_def decode_serializeBytes')
qed

lemma serializePair_props:
  "serializePair q \<noteq> []" "CHR ''&'' \<notin> set (serializePair q)" "CHR ''?'' \<notin> set (serializePair q)"
  "CHR ''#'' \<notin> set (serializePair q)" "parsePair (serializePair q) = q"
proof -
  obtain n v where q: "q = (n, v)" by (cases q)
  have sp: "serializePair q = serializeBytes n @ ''='' @ serializeBytes v"
    by (simp add: q serializePair_def)
  show "serializePair q \<noteq> []" by (simp add: sp)
  show "CHR ''&'' \<notin> set (serializePair q)"
    using urlChar_props(1) [OF serializeBytes_chars] by (simp add: sp)
  show "CHR ''?'' \<notin> set (serializePair q)"
    using urlChar_props(3) [OF serializeBytes_chars] by (simp add: sp)
  show "CHR ''#'' \<notin> set (serializePair q)"
    using urlChar_props(4) [OF serializeBytes_chars] by (simp add: sp)
  show "parsePair (serializePair q) = q"
    using parsePair_serialized [of n v] by (simp only: q serializePair_def prod.case)
qed

lemma join_chars: "c \<notin> set sep \<Longrightarrow> \<forall>x \<in> set xs. c \<notin> set x \<Longrightarrow> c \<notin> set (join sep xs)"
  by (induction sep xs rule: join.induct) auto

lemma params_round_trip:
  "URLSearchParams_new (URLSearchParams_toString ps) = ps"
  "CHR ''#'' \<notin> set (URLSearchParams_toString ps)"
proof -
  let ?segs = "map serializePair ps"
  have ts: "URLSearchParams_toString ps = join ''&'' ?segs"
    by (simp add: URLSearchParams_toString_def serializePair_def)
  have q: "CHR ''?'' \<notin> set (join ''&'' ?segs)"
    by (rule join_chars) (simp_all add: serializePair_props)
  show "CHR ''#'' \<notin> set (URLSearchParams_toString ps)"
    unfolding ts by (rule join_chars) (simp_all add: serializePair_props)
  have strip: "(case join ''&'' ?segs of [] \<Rightarrow> [] | c # cs \<Rightarrow> if c = CHR ''?'' then cs else join ''&'' ?segs)
      = join ''&'' ?segs"
    using q by (cases "join ''&'' ?segs") auto
  show "URLSearchParams_new (URLSearchParams_toString ps) = ps"
  proof (cases "ps = []")
    case True
    then show ?thesis by (simp add: URLSearchParams_new_def URLSearchParams_toString_def)
  next
    case False
    then have "splitOn CHR ''&'' (join ''&'' ?segs) = ?segs"
      by (intro splitOn_join) (simp_all add: serializePair_props)
    moreover have "filter (\<lambda>sq. sq \<noteq> []) ?segs = ?segs"
      by (simp add: serializePair_props)
    ultimately show ?thesis
      unfolding URLSearchParams_new_def ts strip Let_def
      by (simp add: serializePair_props map_idI)
  qed
qed

lemma toString_nonempty: "ps \<noteq> [] \<Longrightarrow> URLSearchParams_toString ps \<noteq> []"
proof
  assume "ps \<noteq> []" and e: "URLSearchParams_toString ps = []"
  have "URLSearchParams_new (URLSearchParams_toString ps) = []"
    unfolding e by (simp add: URLSearchParams_new_def)
  with \<open>ps \<noteq> []\<close> show False by (simp add: params_round_trip(1))
qed

lemma paramOf_toString:
  assumes "ps \<noteq> []"
  shows "stripHash (URLSearchParams_toString ps) \<noteq> []"
    and "paramOf (URLSearchParams_toString ps) nm = map_of ps nm"
proof -
  have "stripHash (URLSearchParams_toString ps) = URLSearchParams_toString ps"
    using params_round_trip(2) [of ps]
    by (cases "URLSearchParams_toString ps") (auto simp: stripHash_def)
  then show "stripHash (URLSearchParams_toString ps) \<noteq> []"
    and "paramOf (URLSearchParams_toString ps) nm = map_of ps nm"
    using toString_nonempty [OF assms]
    by (simp_all add: paramOf_def params_round_trip(1) URLSearchParams_get_def)
qed

lemma locks_string:
  "concat (map (\<lambda>color. if locked color then ''1'' else ''0'') cs) =
    map (\<lambda>color. if locked color then CHR ''1'' else CHR ''0'') cs"
  by (induction cs) simp_all

lemma canonicalHex_cases:
  assumes "isCanonicalHex hx"
  obtains ds where "hx = CHR ''#'' # ds" "isHex6 ds" "toUpperCase ds = ds" "CHR '','' \<notin> set ds"
proof -
  from assms obtain ds where hx: "hx = CHR ''#'' # ds" and len: "length ds = 6"
    and up: "list_all (\<lambda>d. isDigit d \<or> isUpperAF d) ds"
    by (cases hx) (auto simp: isCanonicalHex_def)
  have "isHex6 ds"
    using len up by (auto simp: isHex6_def isHexDigit_def list_all_iff)
  moreover have "toUpperCase ds = ds"
    using up by (rule toUpperCase_upper)
  moreover have "CHR '','' \<notin> set ds"
    using up by (auto simp: list_all_iff isDigit_def isUpperAF_def)
  ultimately show ?thesis using hx that by blast
qed

lemma encode_params:
  "encodePaletteToUrl p = URLSearchParams_toString
     ([(''colors'', join '','' (map (\<lambda>color. removeFirstHash (hex color)) (colors p))),
       (''locks'', map (\<lambda>color. if locked color then CHR ''1'' else CHR ''0'') (colors p))]
      @ (case harmonyRule p of None \<Rightarrow> [] | Some rl \<Rightarrow> [(''harmony'', ruleName rl)]))"
  by (simp add: encodePaletteToUrl_def Let_def URLSearchParams_set_def locks_string
      split: option.splits)

text \<open>
  C2. For every palette of 5 colors whose hex fields have the form of the data model,
  \<open>#\<close> and six upper-case hexadecimal digits, decoding the encoded palette succeeds and
  gives the same hex strings, the same lock flags in the same positions and the same
  harmony rule (none when there was none), with the \<open>rgb\<close> and \<open>hsl\<close> of each color
  computed again from its hex.
\<close>

theorem url_round_trip:
  assumes "length (colors p) = 5" "list_all (\<lambda>c. isCanonicalHex (hex c)) (colors p)"
  shows "decodePaletteFromUrl (encodePaletteToUrl p) =
    Some \<lparr> colors = map recomputed (colors p), harmonyRule = harmonyRule p \<rparr>"
proof -
  from assms(1) obtain c0 c1 c2 c3 c4 where cs: "colors p = [c0, c1, c2, c3, c4]"
    using length_five by blast
  from assms(2) cs have can: "isCanonicalHex (hex c0)" "isCanonicalHex (hex c1)"
    "isCanonicalHex (hex c2)" "isCanonicalHex (hex c3)" "isCanonicalHex (hex c4)"
    by simp_all
  obtain d0 where d0: "hex c0 = CHR ''#'' # d0" "isHex6 d0" "toUpperCase d0 = d0" "CHR '','' \<notin> set d0"
    using can(1) by (rule canonicalHex_cases)
  obtain d1 where d1: "hex c1 = CHR ''#'' # d1" "isHex6 d1" "toUpperCase d1 = d1" "CHR '','' \<notin> set d1"
    using can(2) by (rule canonicalHex_cases)
  obtain d2 where d2: "hex c2 = CHR ''#'' # d2" "isHex6 d2" "toUpperCase d2 = d2" "CHR '','' \<notin> set d2"
    using can(3) by (rule canonicalHex_cases)
  obtain d3 where d3: "hex c3 = CHR ''#'' # d3" "isHex6 d3" "toUpperCase d3 = d3" "CHR '','' \<notin> set d3"
    using can(4) by (rule canonicalHex_cases)
  obtain d4 where d4: "hex c4 = CHR ''#'' # d4" "isHex6 d4" "toUpperCase d4 = d4" "CHR '','' \<notin> set d4"
    using can(5) by (rule canonicalHex_cases)
  define hexes where "hexes = [d0, d1, d2, d3, d4]"
  define cv where "cv = join '','' hexes"
  define lv where "lv = map (\<lambda>color. if locked color then CHR ''1'' else CHR ''0'') (colors p)"
  define hv where "hv = (case harmonyRule p of None \<Rightarrow> [] | Some rl \<Rightarrow> [(''harmony'', ruleName rl)])"
  define ps where "ps = [(''colors'', cv), (''locks'', lv)] @ hv"
  define u where "u = URLSearchParams_toString ps"
  have hx: "map (\<lambda>color. removeFirstHash (hex color)) (colors p) = hexes"
    by (simp add: cs hexes_def d0(1) d1(1) d2(1) d3(1) d4(1))
  have enc: "encodePaletteToUrl p = u"
    unfolding encode_params hx u_def ps_def cv_def lv_def hv_def ..
  have ne: "ps \<noteq> []" by (simp add: ps_def)
  have sh: "stripHash u \<noteq> []" and po: "\<And>nm. paramOf u nm = map_of ps nm"
    unfolding u_def using paramOf_toString [OF ne] by simp_all
  have pc: "paramOf u ''colors'' = Some cv"
    and pl: "paramOf u ''locks'' = Some lv"
    and ph: "paramOf u ''harmony'' = map_option ruleName (harmonyRule p)"
    by (simp_all add: po ps_def hv_def split: option.splits)
  have sp: "splitOn CHR '','' cv = hexes"
    unfolding cv_def by (rule splitOn_join) (simp_all add: hexes_def d0(4) d1(4) d2(4) d3(4) d4(4))
  have nf: "\<not> decodeFails u"
    by (simp add: decodeFails_def sh pc sp hexes_def d0(2) d1(2) d2(2) d3(2) d4(2))
  have lw: "locksWellFormed u"
    by (simp add: locksWellFormed_def pl lv_def cs isLocks5_def)
  have rn: "ruleName rl' \<in> ruleName ` set validRules" for rl'
    by (cases rl') (simp_all add: validRules_def)
  have hk: "harmonyKnown u \<longleftrightarrow> harmonyRule p \<noteq> None"
    by (cases "harmonyRule p") (simp_all add: harmonyKnown_def ph rn)
  have fr: "find (\<lambda>rl. ruleName rl = ruleName rl') validRules = Some rl'" for rl'
    by (simp add: find_rule)
  have col: "applyLocks (map colorOfToken hexes) lv = map recomputed (colors p)"
    by (simp add: hexes_def lv_def cs applyLocks_five colorOfToken_def recomputed_def
        d0(1,3) d1(1,3) d2(1,3) d3(1,3) d4(1,3))
  have rule: "(if harmonyKnown u then find (\<lambda>rl. ruleName rl = the (paramOf u ''harmony'')) validRules else None)
      = harmonyRule p"
    by (cases "harmonyRule p") (simp_all add: hk ph fr)
  show ?thesis
    unfolding enc decodePaletteFromUrl_eq by (simp add: nf lw pc pl sp col rule Let_def)
qed

theorem url_round_trip_witness:
  "length (colors testPalette) = 5
    \<and> list_all (\<lambda>c. isCanonicalHex (hex c)) (colors testPalette)
    \<and> decodePaletteFromUrl (encodePaletteToUrl testPalette) =
        Some \<lparr> colors = map recomputed (colors testPalette),
          harmonyRule = harmonyRule testPalette \<rparr>"
proof -
  have a: "length (colors testPalette) = 5"
    by (simp add: testPalette_def)
  have b: "list_all (\<lambda>c. isCanonicalHex (hex c)) (colors testPalette)"
    by (simp add: testPalette_def isCanonicalHex_def isDigit_def isUpperAF_def)
  from url_round_trip [OF a b] a b show ?thesis by blast
qed

section \<open>Regeneration of a palette\<close>

lemma generatePaletteByRule_length: "length (generatePaletteByRule c rl) = 5"
  by (cases rl)
    (simp_all add: generateAnalogousPalette_def generateComplementaryPalette_def
      generateTriadicPalette_def generateTetradicPalette_def generateMonochromaticPalette_def Let_def)

lemma useGenerated_cases:
  "useGenerated lcs gcs fin gi = (fin1, gi1) \<Longrightarrow> fin1 = fin \<or> (\<exists>x. fin1 = fin @ [x])"
proof (induction lcs gcs fin gi rule: useGenerated.induct)
  case (1 lcs gcs fin gi)
  then show ?case
    by (subst (asm) useGenerated.simps) (auto split: if_splits)
qed

lemma mergeLoop_invariant:
  assumes "mergeLoop cur lcs gcs i fin gi gen = (fin', gen')" "length fin = i" "i \<le> 5"
  shows "length fin' = 5 \<and> take i fin' = fin
    \<and> (\<forall>j. i \<le> j \<and> j < 5 \<and> j < length cur \<and> locked (cur ! j) \<longrightarrow> fin' ! j = cur ! j)"
  using assms
proof (induction cur lcs gcs i fin gi gen rule: mergeLoop.induct)
  case (1 cur lcs gcs i fin gi gen)
  show ?case
  proof (cases "i < 5")
    case False
    with "1.prems" show ?thesis
      by (subst (asm) mergeLoop.simps) auto
  next
    case lt: True
    have step: "length fin' = 5 \<and> take (i + 1) fin' = fin2
        \<and> (\<forall>j. i + 1 \<le> j \<and> j < 5 \<and> j < length cur \<and> locked (cur ! j) \<longrightarrow> fin' ! j = cur ! j)
      \<Longrightarrow> fin2 = fin @ [x] \<Longrightarrow> (i < length cur \<and> locked (cur ! i) \<longrightarrow> x = cur ! i)
      \<Longrightarrow> ?thesis" for fin2 x
    proof -
      assume a: "length fin' = 5 \<and> take (i + 1) fin' = fin2
        \<and> (\<forall>j. i + 1 \<le> j \<and> j < 5 \<and> j < length cur \<and> locked (cur ! j) \<longrightarrow> fin' ! j = cur ! j)"
        and f2: "fin2 = fin @ [x]" and x: "i < length cur \<and> locked (cur ! i) \<longrightarrow> x = cur ! i"
      from a f2 have t: "take (Suc i) fin' = fin @ [x]" by simp
      have len: "length fin = i" by (rule "1.prems"(2))
      from t have "take i (take (Suc i) fin') = take i (fin @ [x])" by simp
      then have ti: "take i fin' = fin" using len by (simp add: min_def)
      from t have "(take (Suc i) fin') ! i = (fin @ [x]) ! i" by simp
      then have xi: "fin' ! i = x" using len by (simp add: nth_append)
      have "fin' ! j = cur ! j" if "i \<le> j" "j < 5" "j < length cur" "locked (cur ! j)" for j
      proof (cases "j = i")
        case True
        with that x xi show ?thesis by simp
      next
        case False
        with that have "i + 1 \<le> j" by simp
        with a that show ?thesis by blast
      qed
      with a ti show ?thesis by blast
    qed
    show ?thesis
    proof (cases "i < length cur \<and> locked (cur ! i)")
      case True
      with lt "1.prems"(1) have rec: "mergeLoop cur lcs gcs (i + 1) (fin @ [cur ! i]) gi gen = (fin', gen')"
        by (subst (asm) mergeLoop.simps) simp
      have "length fin' = 5 \<and> take (i + 1) fin' = fin @ [cur ! i]
        \<and> (\<forall>j. i + 1 \<le> j \<and> j < 5 \<and> j < length cur \<and> locked (cur ! j) \<longrightarrow> fin' ! j = cur ! j)"
        using "1.IH"(1) [OF lt True rec] "1.prems"(2) lt by simp
      then show ?thesis by (rule step [where x = "cur ! i"]) simp_all
    next
      case nl: False
      obtain fin1 gi1 where ug: "useGenerated lcs gcs fin gi = (fin1, gi1)"
        by (cases "useGenerated lcs gcs fin gi")
      show ?thesis
      proof (cases "length fin1 = i")
        case True
        obtain c gen1 where rc: "generateRandomColor gen = (c, gen1)"
          by (cases "generateRandomColor gen")
        from lt nl ug True rc "1.prems"(1)
        have rec: "mergeLoop cur lcs gcs (i + 1) (fin1 @ [c]) gi1 gen1 = (fin', gen')"
          by (subst (asm) mergeLoop.simps) (auto split: if_splits)
        from useGenerated_cases [OF ug] True "1.prems"(2) have f1: "fin1 = fin" by auto
        have "length fin' = 5 \<and> take (i + 1) fin' = fin1 @ [c]
          \<and> (\<forall>j. i + 1 \<le> j \<and> j < 5 \<and> j < length cur \<and> locked (cur ! j) \<longrightarrow> fin' ! j = cur ! j)"
          using "1.IH"(2) [OF lt nl ug [symmetric] True rc [symmetric] rec] True lt by simp
        then show ?thesis by (rule step [where x = c]) (simp_all add: f1 nl)
      next
        case False
        from lt nl ug False "1.prems"(1)
        have rec: "mergeLoop cur lcs gcs (i + 1) fin1 gi1 gen = (fin', gen')"
          by (subst (asm) mergeLoop.simps) (auto split: if_splits)
        from useGenerated_cases [OF ug] False "1.prems"(2) obtain x where f1: "fin1 = fin @ [x]" by auto
        have "length fin' = 5 \<and> take (i + 1) fin' = fin1
          \<and> (\<forall>j. i + 1 \<le> j \<and> j < 5 \<and> j < length cur \<and> locked (cur ! j) \<longrightarrow> fin' ! j = cur ! j)"
          using "1.IH"(3) [OF lt nl ug [symmetric] False rec] f1 "1.prems"(2) lt by simp
        then show ?thesis by (rule step [where x = x]) (simp_all add: f1 nl)
      qed
    qed
  qed
qed

lemma fillLoop_five: "length fin = 5 \<Longrightarrow> fillLoop fin gen = (fin, gen)"
  by (subst fillLoop.simps) simp

text \<open>
  C1. For every current palette of exactly 5 colors and every source of randomness,
  \<open>generateRandomPalette\<close> returns a palette of exactly 5 colors, and every color that is
  locked in the current palette is at the same index of the result, unchanged: the same
  hex, and locked.
\<close>

theorem generateRandomPalette_locked:
  assumes "length (colors cur) = 5"
  shows "length (colors (fst (generateRandomPalette (Some cur) gen))) = 5
    \<and> lockedKept (colors cur) (colors (fst (generateRandomPalette (Some cur) gen)))"
proof -
  obtain rl gen1 where sel: "selectRandomHarmonyRule gen = (rl, gen1)"
    by (cases "selectRandomHarmonyRule gen")
  obtain bc gen2 where rc: "generateRandomColor gen1 = (bc, gen2)"
    by (cases "generateRandomColor gen1")
  define lcs where "lcs = filter locked (colors cur)"
  consider "lcs = []" | "5 \<le> length lcs" | "lcs \<noteq> []" "\<not> 5 \<le> length lcs"
    by blast
  then show ?thesis
  proof cases
    case 1
    then have none: "\<not> locked (colors cur ! i)" if "i < 5" for i
      using that assms nth_mem [of i "colors cur"] by (auto simp: lcs_def filter_empty_conv)
    have "fst (generateRandomPalette (Some cur) gen) =
        \<lparr> colors = generatePaletteByRule bc rl, harmonyRule = Some rl \<rparr>"
      using 1 assms by (simp add: generateRandomPalette_def sel rc Let_def lcs_def [symmetric])
    then show ?thesis
      using none by (simp add: generatePaletteByRule_length lockedKept_def)
  next
    case 2
    then have "lcs \<noteq> []" by auto
    with 2 have "fst (generateRandomPalette (Some cur) gen) = cur\<lparr> harmonyRule := Some rl \<rparr>"
      using assms by (simp add: generateRandomPalette_def sel Let_def lcs_def [symmetric])
    then show ?thesis
      using assms by (simp add: lockedKept_def)
  next
    case 3
    define gcs where "gcs = generatePaletteByRule (lcs ! 0) rl"
    obtain fin' gen3 where ml: "mergeLoop (colors cur) lcs gcs 0 [] 0 gen1 = (fin', gen3)"
      by (cases "mergeLoop (colors cur) lcs gcs 0 [] 0 gen1")
    from mergeLoop_invariant [OF ml] have len: "length fin' = 5"
      and keep: "\<And>j. j < 5 \<Longrightarrow> locked (colors cur ! j) \<Longrightarrow> fin' ! j = colors cur ! j"
      using assms by simp_all
    have "fst (generateRandomPalette (Some cur) gen) =
        \<lparr> colors = take 5 fin', harmonyRule = Some rl \<rparr>"
      using 3 assms
      by (simp add: generateRandomPalette_def sel Let_def lcs_def [symmetric] gcs_def [symmetric] ml
          fillLoop_five [OF len])
    then show ?thesis
      using len keep by (simp add: lockedKept_def)
  qed
qed

theorem generateRandomPalette_locked_witness:
  "length (colors testPalette) = 5
    \<and> length (colors (fst (generateRandomPalette (Some testPalette) zeroGen))) = 5
    \<and> hex (colors (fst (generateRandomPalette (Some testPalette) zeroGen)) ! 2) = ''#0000FF''
    \<and> locked (colors (fst (generateRandomPalette (Some testPalette) zeroGen)) ! 2)"
proof -
  have a: "length (colors testPalette) = 5"
    by (simp add: testPalette_def)
  have b: "locked (colors testPalette ! 2)" "hex (colors testPalette ! 2) = ''#0000FF''"
    by (simp_all add: testPalette_def)
  from generateRandomPalette_locked [OF a, of zeroGen]
  have "length (colors (fst (generateRandomPalette (Some testPalette) zeroGen))) = 5"
    and "colors (fst (generateRandomPalette (Some testPalette) zeroGen)) ! 2 = colors testPalette ! 2"
    using b(1) by (simp_all add: lockedKept_def)
  with a b show ?thesis by simp
qed

section \<open>The unit tests of the repository\<close>

text \<open>
  The model computes what the unit tests of the repository expect of the decoder, the
  conversions and the encoder.
\<close>

lemma decode_none_examples:
  "decodePaletteFromUrl '''' = None"
  "decodePaletteFromUrl ''#'' = None"
  "decodePaletteFromUrl ''colors=FF0000,00FF00,0000FF'' = None"
  "decodePaletteFromUrl ''locks=11111&harmony=analogous'' = None"
  "decodePaletteFromUrl ''colors=GGGGGG,00FF00,0000FF,FFFF00,FF00FF'' = None"
  by (simp_all add: decodePaletteFromUrl_eq decodeFails_def url_eval hex_eval)

lemma decode_locks_example:
  "map locked (colors (the (decodePaletteFromUrl lowerUrl))) = [True, False, True, False, True]"
  by (simp add: decodePaletteFromUrl_eq lowerUrl_ok locksWellFormed_def lowerUrl_params isLocks5_def
      applyLocks_five Let_def)

lemma conversion_examples:
  "hexToRgb ''#FF0000'' = \<lparr>r = 255, g = 0, b = 0\<rparr>"
  "rgbToHex \<lparr>r = 0, g = 255, b = 0\<rparr> = ''#00FF00''"
  "rgbToHsl \<lparr>r = 255, g = 0, b = 0\<rparr> = \<lparr>h = 0, s = 100, l = 50\<rparr>"
  "rgbToHsl \<lparr>r = 0, g = 0, b = 255\<rparr> = \<lparr>h = 240, s = 100, l = 50\<rparr>"
  "hslToRgb \<lparr>h = 0, s = 100, l = 50\<rparr> = \<lparr>r = 255, g = 0, b = 0\<rparr>"
  "hslToRgb \<lparr>h = 0, s = 0, l = 100\<rparr> = \<lparr>r = 255, g = 255, b = 255\<rparr>"
  "hslToHex \<lparr>h = 0, s = 100, l = 50\<rparr> = ''#FF0000''"
  by (simp_all add: hexToRgb_def stripHash_def substring_def parseInt16_def isWhiteSpace_def
      stripSign_def strip0x_def isHexDigit_def isDigit_def isUpperAF_def isLowerAF_def
      clamp_def rgbToHex_def toHex_def toUpperCase_def toUpperChar_def padStart_def
      toString16_def natToString16.simps hexDigitChar_def hexValue_def hexDigitVal_def
      char_of_eq_iff rgbToHsl_def hslToRgb_def hslToHex_def hue2rgb_def Let_def)

lemma encode_example:
  "encodePaletteToUrl testPalette =
     ''colors=FF0000%2C00FF00%2C0000FF%2CFFFF00%2CFF00FF&locks=10101&harmony=complementary''"
  by (simp add: encodePaletteToUrl_def testPalette_def Let_def URLSearchParams_set_def
      URLSearchParams_toString_def serializeBytes_def serializeByte_def isFormSafe_def
      isAlnum_def upperHexDigitChar_def char_of_eq_iff)

end
